theory Spec2Isabelle
  imports Complex_Main "HOL-Library.AList"
begin

section \<open>Library types: time, decimal formatting, float64\<close>

text \<open>
  A \<^verbatim>\<open>time.Time\<close> is modelled as an instant in nanoseconds (an \<^typ>\<open>int\<close>), a
  \<^verbatim>\<open>time.Duration\<close> as a count of nanoseconds. \<^verbatim>\<open>Time.Sub\<close> saturates at the ends
  of the 64-bit range of a Duration, as the Go library does. Every call of
  \<^verbatim>\<open>time.Now()\<close> of the source is an explicit argument of the model.
\<close>

type_synonym time = int
type_synonym duration = int

definition maxDuration :: duration where
  "maxDuration = 2 ^ 63 - 1"

definition minDuration :: duration where
  "minDuration = - (2 ^ 63)"

definition time_Sub :: "time \<Rightarrow> time \<Rightarrow> duration" where
  "time_Sub t u =
     (let d = t - u in
      if maxDuration < d then maxDuration
      else if d < minDuration then minDuration
      else d)"

definition time_Since :: "time \<Rightarrow> time \<Rightarrow> duration" where
  "time_Since now t = time_Sub now t"

definition time_Before :: "time \<Rightarrow> time \<Rightarrow> bool" where
  "time_Before t u = (t < u)"

definition time_Millisecond :: duration where
  "time_Millisecond = 1000000"

definition time_Second :: duration where
  "time_Second = 1000000000"

definition time_Minute :: duration where
  "time_Minute = 60 * time_Second"

definition time_Hour :: duration where
  "time_Hour = 60 * time_Minute"

text \<open>The zero value of \<^verbatim>\<open>time.Time\<close> (January 1, year 1, UTC), in nanoseconds from the Unix epoch.\<close>

definition zeroTime :: time where
  "zeroTime = - 62135596800 * 1000000000"

text \<open>Go's integer division truncates toward zero.\<close>

definition go_div :: "int \<Rightarrow> int \<Rightarrow> int" where
  "go_div a b = sgn a * sgn b * (\<bar>a\<bar> div \<bar>b\<bar>)"

definition Milliseconds :: "duration \<Rightarrow> int" where
  "Milliseconds d = go_div d 1000000"

text \<open>The verb \<^verbatim>\<open>%d\<close> of \<^verbatim>\<open>fmt.Sprintf\<close>: decimal digits, with a minus sign for a negative number.\<close>

definition digit_char :: "nat \<Rightarrow> char" where
  "digit_char d = ''0123456789'' ! d"

fun nat_digits :: "nat \<Rightarrow> string" where
  "nat_digits n = (if n < 10 then [digit_char n] else nat_digits (n div 10) @ [digit_char (n mod 10)])"

declare nat_digits.simps [simp del]

definition fmt_d :: "int \<Rightarrow> string" where
  "fmt_d i = (if i < 0 then CHR ''-'' # nat_digits (nat (- i)) else nat_digits (nat i))"

text \<open>
  A \<^verbatim>\<open>float64\<close>: a finite value is a real number; the comparisons of IEEE 754 are exact on
  finite values and false whenever an operand is NaN.
\<close>

datatype float64 = NaN | NegInf | PosInf | Finite real

fun float_lt :: "float64 \<Rightarrow> float64 \<Rightarrow> bool" where
  "float_lt NaN _ = False"
| "float_lt _ NaN = False"
| "float_lt NegInf NegInf = False"
| "float_lt NegInf _ = True"
| "float_lt PosInf _ = False"
| "float_lt (Finite x) NegInf = False"
| "float_lt (Finite x) PosInf = True"
| "float_lt (Finite x) (Finite y) = (x < y)"

definition float_gt :: "float64 \<Rightarrow> float64 \<Rightarrow> bool" where
  "float_gt a b = float_lt b a"

section \<open>Requests and responses (completion.go)\<close>

record CompletionRequest =
  ProjectID :: string
  FilePath :: string
  CursorLine :: int
  CursorColumn :: int
  LLM :: string
  ReqMaxTokens :: int
  ContextFiles :: "string list"
  ReqTemperature :: float64

record CompletionResponse =
  Completion :: string
  LatencyMs :: int
  Model :: string
  TokensUsed :: int
  CachedResult :: bool
  Timestamp :: time

section \<open>The cache (cache.go)\<close>

text \<open>
  The Go map \<^verbatim>\<open>entries\<close> is an association list with distinct keys. A cache entry holds a
  pointer to its response; the type \<open>'r\<close> of that reference is a parameter (the
  orchestrator below instantiates it with heap addresses). \<^verbatim>\<open>hashContent\<close> is SHA-256 of
  the Go library, printed in hexadecimal: it is the parameter \<open>H\<close> of the model.
\<close>

record 'r CacheEntry =
  Response :: 'r
  CreatedAt :: time
  FileHash :: string

record 'r Cache =
  entries :: "(string \<times> 'r CacheEntry) list"
  ttl :: duration
  maxSize :: int
  enabled :: bool

definition NewCache :: "duration \<Rightarrow> int \<Rightarrow> bool \<Rightarrow> 'r Cache" where
  "NewCache t m e = \<lparr>entries = [], ttl = t, maxSize = m, enabled = e\<rparr>"

definition cacheKey :: "CompletionRequest \<Rightarrow> string" where
  "cacheKey req =
     ProjectID req @ '':'' @ FilePath req @ '':'' @ fmt_d (CursorLine req) @ '':'' @
     fmt_d (CursorColumn req) @ '':'' @ LLM req"

definition Cache_Get ::
  "(string \<Rightarrow> string) \<Rightarrow> 'r Cache \<Rightarrow> time \<Rightarrow> CompletionRequest \<Rightarrow> string \<Rightarrow> 'r option" where
  "Cache_Get H c now req fileContent =
     (if \<not> enabled c then None
      else case map_of (entries c) (cacheKey req) of
        None \<Rightarrow> None
      | Some entry \<Rightarrow>
          if time_Since now (CreatedAt entry) > ttl c then None
          else if FileHash entry \<noteq> H fileContent then None
          else Some (Response entry))"

text \<open>
  The eviction loop of \<^verbatim>\<open>Put\<close>. Go visits the entries of a map in an order it does not
  specify, so the sequence \<open>visit\<close> of (key, entry) pairs that \<^verbatim>\<open>range\<close> yields is
  an argument; the runtime guarantees that it enumerates the entries of the map, each
  once. The loop variables are \<open>oldestKey\<close> and \<open>oldestTime\<close>.
\<close>

fun oldest_scan :: "(string \<times> 'r CacheEntry) list \<Rightarrow> string \<Rightarrow> time \<Rightarrow> string" where
  "oldest_scan [] oldestKey oldestTime = oldestKey"
| "oldest_scan ((key, entry) # rest) oldestKey oldestTime =
     (if oldestKey = [] \<or> time_Before (CreatedAt entry) oldestTime
      then oldest_scan rest key (CreatedAt entry)
      else oldest_scan rest oldestKey oldestTime)"

definition evict :: "(string \<times> 'r CacheEntry) list \<Rightarrow> (string \<times> 'r CacheEntry) list \<Rightarrow> (string \<times> 'r CacheEntry) list" where
  "evict visit es =
     (if int (length es) > 1000
      then (let oldestKey = oldest_scan visit [] zeroTime in
            if oldestKey = [] then es else AList.delete oldestKey es)
      else es)"

definition Cache_Put ::
  "(string \<Rightarrow> string) \<Rightarrow> 'r Cache \<Rightarrow> (string \<times> 'r CacheEntry) list \<Rightarrow> time \<Rightarrow>
     CompletionRequest \<Rightarrow> string \<Rightarrow> 'r \<Rightarrow> 'r Cache" where
  "Cache_Put H c visit now req fileContent resp =
     (if \<not> enabled c then c
      else c\<lparr>entries :=
        AList.update (cacheKey req)
          \<lparr>Response = resp, CreatedAt = now, FileHash = H fileContent\<rparr>
          (evict visit (entries c))\<rparr>)"

text \<open>A sequence of calls on one cache, with the result of each \<^verbatim>\<open>Get\<close>.\<close>

datatype 'r cache_op =
  OpGet time CompletionRequest string
| OpPut "(string \<times> 'r CacheEntry) list" time CompletionRequest string 'r

fun run_cache ::
  "(string \<Rightarrow> string) \<Rightarrow> 'r Cache \<Rightarrow> 'r cache_op list \<Rightarrow> 'r option list \<times> 'r Cache" where
  "run_cache H c [] = ([], c)"
| "run_cache H c (OpGet now req content # ops) =
     (let (rs, c') = run_cache H c ops in (Cache_Get H c now req content # rs, c'))"
| "run_cache H c (OpPut visit now req content resp # ops) =
     run_cache H (Cache_Put H c visit now req content resp) ops"

text \<open>
  A run is well formed when the sequence that each \<^verbatim>\<open>range\<close> loop visits enumerates the
  entries the map holds at that moment.
\<close>

fun visits_ok :: "(string \<Rightarrow> string) \<Rightarrow> 'r Cache \<Rightarrow> 'r cache_op list \<Rightarrow> bool" where
  "visits_ok H c [] = True"
| "visits_ok H c (OpGet now req content # ops) = visits_ok H c ops"
| "visits_ok H c (OpPut visit now req content resp # ops) =
     (set visit = set (entries c) \<and> visits_ok H (Cache_Put H c visit now req content resp) ops)"

text \<open>
  The invariant of the entries of a cache: keys are distinct (it is a map), no key is the
  empty string (every key is built by \<open>cacheKey\<close>), and at most 1001 entries are resident.
\<close>

definition cache_inv :: "'r Cache \<Rightarrow> bool" where
  "cache_inv c \<longleftrightarrow> distinct (map fst (entries c)) \<and> [] \<notin> fst ` set (entries c) \<and> length (entries c) \<le> 1001"

section \<open>Errors (errors.go)\<close>

text \<open>
  A Go \<^verbatim>\<open>error\<close> value: the sentinel errors of the package, a \<^verbatim>\<open>CompletionError\<close> with its
  code, message and wrapped cause, an error built by \<^verbatim>\<open>fmt.Errorf\<close> (without a cause, or
  with the text before and after the \<^verbatim>\<open>%w\<close> cause), and any other error a collaborator
  returns.
\<close>

datatype error =
  ErrFileNotAuthorized
| ErrProjectNotFound
| ErrRateLimitExceeded
| ErrContextTooLarge
| ErrLLMTimeout
| ErrInvalidRequest
| ErrCacheMiss
| ErrFileNotFound
| ErrInvalidConfig
| CompletionError string string "error option"
| Errorf string
| Errorf_w string error string
| Other string

definition CodeValidation :: string where "CodeValidation = ''VALIDATION_ERROR''"
definition CodeRateLimit :: string where "CodeRateLimit = ''RATE_LIMIT''"

definition NewCompletionError :: "string \<Rightarrow> string \<Rightarrow> error option \<Rightarrow> error" where
  "NewCompletionError code message err = CompletionError code message err"

definition WrapRateLimitError :: "string \<Rightarrow> error option \<Rightarrow> error" where
  "WrapRateLimitError message err = NewCompletionError CodeRateLimit message err"

section \<open>The rate limiter (ratelimit.go)\<close>

text \<open>
  The counters of a project live behind a pointer that only the limiter holds, so the map
  stores them by value. \<open>lookup_count\<close> is the lazy creation of the counter and
  \<open>reset_windows\<close> the two window resets at the head of \<^verbatim>\<open>CheckLimit\<close>. A counter is
  incremented only below its threshold, so the 64-bit increment of the source never wraps.
\<close>

record RequestCount =
  Minute :: int
  Hour :: int
  LastMinuteReset :: time
  LastHourReset :: time

record RateLimiter =
  requestCounts :: "string \<rightharpoonup> RequestCount"

definition NewRateLimiter :: RateLimiter where
  "NewRateLimiter = \<lparr>requestCounts = Map.empty\<rparr>"

definition lookup_count :: "RateLimiter \<Rightarrow> time \<Rightarrow> string \<Rightarrow> RequestCount" where
  "lookup_count r now projectID =
     (case requestCounts r projectID of
        None \<Rightarrow> \<lparr>Minute = 0, Hour = 0, LastMinuteReset = now, LastHourReset = now\<rparr>
      | Some count \<Rightarrow> count)"

definition reset_windows :: "time \<Rightarrow> RequestCount \<Rightarrow> RequestCount" where
  "reset_windows now count =
     (let count1 = (if time_Sub now (LastMinuteReset count) \<ge> time_Minute
                    then count\<lparr>Minute := 0, LastMinuteReset := now\<rparr> else count)
      in if time_Sub now (LastHourReset count1) \<ge> time_Hour
         then count1\<lparr>Hour := 0, LastHourReset := now\<rparr> else count1)"

definition CheckLimit ::
  "RateLimiter \<Rightarrow> time \<Rightarrow> string \<Rightarrow> int \<Rightarrow> int \<Rightarrow> error option \<times> RateLimiter" where
  "CheckLimit r now projectID maxPerMin maxPerHour =
     (let count = reset_windows now (lookup_count r now projectID) in
      if Minute count \<ge> maxPerMin
      then (Some (WrapRateLimitError ''per-minute rate limit exceeded'' (Some ErrRateLimitExceeded)),
            r\<lparr>requestCounts := (requestCounts r)(projectID \<mapsto> count)\<rparr>)
      else if Hour count \<ge> maxPerHour
      then (Some (WrapRateLimitError ''per-hour rate limit exceeded'' (Some ErrRateLimitExceeded)),
            r\<lparr>requestCounts := (requestCounts r)(projectID \<mapsto> count)\<rparr>)
      else (None,
            r\<lparr>requestCounts := (requestCounts r)(projectID \<mapsto>
               count\<lparr>Minute := Minute count + 1, Hour := Hour count + 1\<rparr>)\<rparr>))"

definition Reset :: "RateLimiter \<Rightarrow> string \<Rightarrow> RateLimiter" where
  "Reset r projectID = r\<lparr>requestCounts := (requestCounts r)(projectID := None)\<rparr>"

definition ResetAll :: "RateLimiter \<Rightarrow> RateLimiter" where
  "ResetAll r = r\<lparr>requestCounts := Map.empty\<rparr>"

definition GetStats :: "RateLimiter \<Rightarrow> time \<Rightarrow> string \<Rightarrow> int \<times> int \<times> bool" where
  "GetStats r now projectID =
     (case requestCounts r projectID of
        None \<Rightarrow> (0, 0, False)
      | Some count \<Rightarrow>
          (let minuteValid = (time_Sub now (LastMinuteReset count) < time_Minute);
               hourValid = (time_Sub now (LastHourReset count) < time_Hour)
           in (if minuteValid then Minute count else 0, if hourValid then Hour count else 0, True)))"

text \<open>Successive calls of \<^verbatim>\<open>CheckLimit\<close> for one project, at the given instants.\<close>

fun CheckLimit_seq ::
  "RateLimiter \<Rightarrow> string \<Rightarrow> int \<Rightarrow> int \<Rightarrow> time list \<Rightarrow> error option list \<times> RateLimiter" where
  "CheckLimit_seq r projectID maxPerMin maxPerHour [] = ([], r)"
| "CheckLimit_seq r projectID maxPerMin maxPerHour (now # ts) =
     (let (e, r') = CheckLimit r now projectID maxPerMin maxPerHour;
          (es, r'') = CheckLimit_seq r' projectID maxPerMin maxPerHour ts
      in (e # es, r''))"

section \<open>Configuration (config.go)\<close>

record Config =
  DefaultLLM :: string
  MaxTokens :: int
  Temperature :: float64
  RequestTimeout :: duration
  MaxContextTokens :: int
  IncludeAgentsFile :: bool
  IncludeDiscussion :: bool
  MaxDiscussionRounds :: int
  EnableCache :: bool
  CacheTTL :: duration
  MaxCacheSize :: int
  MaxRequestsPerMinute :: int
  MaxRequestsPerHour :: int

text \<open>The constant \<^verbatim>\<open>0.2\<close> is the double nearest to it, \<open>3602879701896397 / 2^54\<close>.\<close>

definition DefaultConfig :: Config where
  "DefaultConfig =
     \<lparr>DefaultLLM = ''sonar-deep-research'',
      MaxTokens = 500,
      Temperature = Finite (3602879701896397 / 18014398509481984),
      RequestTimeout = 30 * time_Second,
      MaxContextTokens = 10000,
      IncludeAgentsFile = True,
      IncludeDiscussion = True,
      MaxDiscussionRounds = 3,
      EnableCache = True,
      CacheTTL = 5 * time_Minute,
      MaxCacheSize = 100 * 1024 * 1024,
      MaxRequestsPerMinute = 10,
      MaxRequestsPerHour = 50\<rparr>"

definition Validate :: "Config \<Rightarrow> error option" where
  "Validate c =
     (if DefaultLLM c = [] then Some (Errorf ''default_llm cannot be empty'')
      else if MaxTokens c \<le> 0 then Some (Errorf ''max_tokens must be positive'')
      else if float_lt (Temperature c) (Finite 0) \<or> float_gt (Temperature c) (Finite 2)
        then Some (Errorf ''temperature must be between 0 and 2'')
      else if MaxContextTokens c \<le> 0 then Some (Errorf ''max_context_tokens must be positive'')
      else if MaxRequestsPerMinute c \<le> 0 then Some (Errorf ''max_requests_per_minute must be positive'')
      else if MaxRequestsPerHour c \<le> 0 then Some (Errorf ''max_requests_per_hour must be positive'')
      else None)"

text \<open>The interval of the specification: a temperature that lies in \<open>[0, 2]\<close>.\<close>

fun in_0_2 :: "float64 \<Rightarrow> bool" where
  "in_0_2 (Finite x) = (0 \<le> x \<and> x \<le> 2)"
| "in_0_2 _ = False"

section \<open>Context gathering (context.go)\<close>

text \<open>
  Strings are byte sequences, as in Go. \<open>strings_Split_nl\<close> is \<^verbatim>\<open>strings.Split(s, "\n")\<close>:
  one piece more than there are newlines. The slice it returns has its length as its
  capacity, so in \<open>extractPrefixSuffix\<close> the slice \<^verbatim>\<open>lines[:line]\<close> shares the array of
  \<^verbatim>\<open>lines\<close> with room to spare, and \<^verbatim>\<open>append(prefixLines, lines[line][:col])\<close> stores the
  truncated line into \<^verbatim>\<open>lines[line]\<close>: the model passes the updated array \<open>lines'\<close> on
  to the computation of the suffix.
\<close>

definition nl :: string where
  "nl = [CHR 0x0A]"

fun strings_Split_nl :: "string \<Rightarrow> string list" where
  "strings_Split_nl [] = [[]]"
| "strings_Split_nl (c # cs) =
     (if c = CHR 0x0A then [] # strings_Split_nl cs
      else (case strings_Split_nl cs of
              [] \<Rightarrow> [[c]]
            | l # ls \<Rightarrow> (c # l) # ls))"

fun strings_Join :: "string list \<Rightarrow> string \<Rightarrow> string" where
  "strings_Join [] sep = []"
| "strings_Join [x] sep = x"
| "strings_Join (x # y # ys) sep = x @ sep @ strings_Join (y # ys) sep"

record FileContext =
  Path :: string
  Content :: string

record CompletionContext =
  Prefix :: string
  Suffix :: string
  AgentsInstructions :: string
  DiscussionContext :: string
  AdditionalFiles :: "FileContext list"
  Language :: string

record ContextGatherer =
  maxTokens :: int

definition clamp_line :: "int \<Rightarrow> int \<Rightarrow> int" where
  "clamp_line n line =
     (let line1 = (if line < 0 then 0 else line)
      in if line1 \<ge> n then n - 1 else line1)"

definition clamp_col :: "int \<Rightarrow> int" where
  "clamp_col col = (if col < 0 then 0 else col)"

definition extractPrefixSuffix :: "string \<Rightarrow> int \<Rightarrow> int \<Rightarrow> string \<times> string" where
  "extractPrefixSuffix content line0 col0 =
     (let lines = strings_Split_nl content;
          n = int (length lines);
          line = clamp_line n line0;
          col = clamp_col col0;
          l = nat line;
          c = nat col;
          prefixLines0 = take l lines;
          (prefixLines, lines') =
            (if line < n \<and> col < int (length (lines ! l))
             then (prefixLines0 @ [take c (lines ! l)], lines[l := take c (lines ! l)])
             else (prefixLines0, lines));
          prefix = strings_Join prefixLines nl;
          suffixLines1 =
            (if line < n \<and> col < int (length (lines' ! l)) then [drop c (lines' ! l)] else []);
          suffixLines =
            (if line + 1 < n then suffixLines1 @ drop (l + 1) lines' else suffixLines1);
          suffix = strings_Join suffixLines nl
      in (prefix, suffix))"

definition estimateTokens :: "string \<Rightarrow> int" where
  "estimateTokens s = int (length s) div 4"

fun files_tokens :: "int \<Rightarrow> FileContext list \<Rightarrow> int" where
  "files_tokens currentTokens [] = currentTokens"
| "files_tokens currentTokens (f # fs) = files_tokens (currentTokens + estimateTokens (Content f)) fs"

definition trimToTokenBudget :: "ContextGatherer \<Rightarrow> CompletionContext \<Rightarrow> CompletionContext" where
  "trimToTokenBudget g ctx =
     (let currentTokens =
            files_tokens
              (estimateTokens (Prefix ctx) + estimateTokens (Suffix ctx) +
               estimateTokens (AgentsInstructions ctx) + estimateTokens (DiscussionContext ctx))
              (AdditionalFiles ctx)
      in if currentTokens \<le> maxTokens g then ctx
         else
           (let ctx1 =
                  (if estimateTokens (DiscussionContext ctx) > 1000
                   then ctx\<lparr>DiscussionContext :=
                          drop (length (DiscussionContext ctx) - 1000) (DiscussionContext ctx)\<rparr>
                   else ctx)
            in if estimateTokens (AgentsInstructions ctx1) > 2000
               then ctx1\<lparr>AgentsInstructions := take 2000 (AgentsInstructions ctx1)\<rparr>
               else ctx1))"

section \<open>The prompt (fim.go)\<close>

text \<open>The \<^verbatim>\<open>strings.Builder\<close> is the text written so far.\<close>

record FIMFormatter =
  instructionTemplate :: string

definition WriteString :: "string \<Rightarrow> string \<Rightarrow> string" where
  "WriteString prompt s = prompt @ s"

fun write_files :: "string \<Rightarrow> FileContext list \<Rightarrow> string" where
  "write_files prompt [] = prompt"
| "write_files prompt (file # files) =
     write_files
       (WriteString prompt (nl @ ''--- '' @ Path file @ '' ---'' @ nl @ Content file @ nl))
       files"

definition FormatPrompt :: "FIMFormatter \<Rightarrow> CompletionContext \<Rightarrow> string" where
  "FormatPrompt f ctx =
     (let prompt0 = [];
          prompt1 = WriteString prompt0
            (''You are an expert '' @ Language ctx @
             '' programmer. Complete the code at the cursor position.'' @ nl @ nl);
          prompt2 =
            (if AgentsInstructions ctx \<noteq> []
             then WriteString (WriteString (WriteString prompt1 (''PROJECT INSTRUCTIONS:'' @ nl))
                    (AgentsInstructions ctx)) (nl @ nl)
             else prompt1);
          prompt3 =
            (if DiscussionContext ctx \<noteq> []
             then WriteString (WriteString (WriteString prompt2 (''RECENT PROJECT DISCUSSION:'' @ nl))
                    (DiscussionContext ctx)) (nl @ nl)
             else prompt2);
          prompt4 =
            (if length (AdditionalFiles ctx) > 0
             then WriteString
                    (write_files (WriteString prompt3 (''RELATED FILES:'' @ nl)) (AdditionalFiles ctx)) nl
             else prompt3);
          prompt5 = WriteString (WriteString (WriteString prompt4 (''CODE BEFORE CURSOR:'' @ nl))
                      (Prefix ctx)) (nl @ nl);
          prompt6 = WriteString (WriteString (WriteString prompt5 (''CODE AFTER CURSOR:'' @ nl))
                      (Suffix ctx)) (nl @ nl);
          prompt7 = WriteString prompt6 (''INSTRUCTIONS:'' @ nl);
          prompt8 = WriteString prompt7 (''Complete only the code at the cursor position.'' @ nl);
          prompt9 = WriteString prompt8
            (''Provide syntactically correct, idiomatic '' @ Language ctx @ '' code.'' @ nl);
          prompt10 = WriteString prompt9 (''Do not repeat the prefix or suffix.'' @ nl);
          prompt11 = WriteString prompt10 (''Output only the completion, nothing else.'' @ nl)
      in prompt11)"

text \<open>
  The method has a pointer receiver and takes a pointer to the context, so a call could
  assign to either. \<open>FormatPrompt_call\<close> is the call as a step on the two objects: the text
  returned, and the formatter and the context as the call leaves them.
\<close>

definition FormatPrompt_call ::
  "FIMFormatter \<times> CompletionContext \<Rightarrow> string \<times> (FIMFormatter \<times> CompletionContext)" where
  "FormatPrompt_call s = (FormatPrompt (fst s) (snd s), s)"

section \<open>Collaborators\<close>

text \<open>
  The functions of the Go library that the package calls on paths and strings, and
  SHA-256 in hexadecimal (\<^verbatim>\<open>hashContent\<close>), are fields of a record \<open>golib\<close> that every
  function using them takes. A \<^verbatim>\<open>ProjectGetter\<close> is the record of its four methods;
  each returns its value together with an error, as in Go, since the orchestrator uses
  the base directory without looking at the error; a provider answers the same question
  the same way throughout one call of the orchestrator. A \<^verbatim>\<open>GrokkerClient\<close> is its
  \<^verbatim>\<open>Query\<close> method, a function of the model name, the system message, the user message
  and the token limit.
\<close>

record golib =
  filepath_IsAbs :: "string \<Rightarrow> bool"
  filepath_Join :: "string \<Rightarrow> string \<Rightarrow> string"
  filepath_Clean :: "string \<Rightarrow> string"
  filepath_Dir :: "string \<Rightarrow> string"
  filepath_Ext :: "string \<Rightarrow> string"
  strings_ToLower :: "string \<Rightarrow> string"
  strings_TrimSpace :: "string \<Rightarrow> string"
  sha256_hex :: "string \<Rightarrow> string"

record ProjectGetter =
  GetProjectBaseDir :: "string \<Rightarrow> string \<times> error option"
  GetProjectAuthorizedFiles :: "string \<Rightarrow> string list \<times> error option"
  GetProjectDiscussionFile :: "string \<Rightarrow> string \<times> error option"
  ReadFile :: "string \<Rightarrow> string \<times> error option"

type_synonym GrokkerClient = "string \<Rightarrow> string \<Rightarrow> string \<Rightarrow> int \<Rightarrow> string \<times> int \<times> error option"

section \<open>Paths (completion.go)\<close>

definition resolveFilePath :: "golib \<Rightarrow> string \<Rightarrow> string \<Rightarrow> string" where
  "resolveFilePath lib baseDir filePath =
     (if filepath_IsAbs lib filePath then filePath else filepath_Join lib baseDir filePath)"

definition cleanPath :: "golib \<Rightarrow> string \<Rightarrow> string" where
  "cleanPath lib p = filepath_Clean lib (strings_TrimSpace lib p)"

section \<open>Context gathering, continued (context.go)\<close>

text \<open>
  The walk of \<^verbatim>\<open>gatherAgentsInstructions\<close> up the directories ends when
  \<^verbatim>\<open>filepath.Dir\<close> reaches the base directory, the root or a fixed point; for an arbitrary
  \<open>filepath_Dir\<close> it need not end, so the walk is a partial function and not returning
  is the value \<open>None\<close>, which \<open>GatherContext\<close> and \<open>Complete\<close> pass on.
\<close>

partial_function (option) agents_walk ::
  "golib \<Rightarrow> ProjectGetter \<Rightarrow> string \<Rightarrow> string \<Rightarrow> string list \<Rightarrow> string list option" where
  "agents_walk lib pg baseDir dir instructions =
     (let instructions' =
            (case ReadFile pg (filepath_Join lib dir ''AGENTS.md'') of
               (content, None) \<Rightarrow> instructions @ [content]
             | (content, Some err) \<Rightarrow> instructions)
      in if dir = baseDir \<or> dir = ''/'' \<or> dir = ''.'' then Some instructions'
         else (let parent = filepath_Dir lib dir
               in if parent = dir then Some instructions'
                  else agents_walk lib pg baseDir parent instructions'))"

definition gatherAgentsInstructions ::
  "ContextGatherer \<Rightarrow> golib \<Rightarrow> string \<Rightarrow> string \<Rightarrow> ProjectGetter \<Rightarrow> string option" where
  "gatherAgentsInstructions g lib baseDir targetFile pg =
     (case agents_walk lib pg baseDir (filepath_Dir lib (filepath_Join lib baseDir targetFile)) [] of
        None \<Rightarrow> None
      | Some instructions \<Rightarrow>
          Some (if length instructions = 0 then []
                else strings_Join instructions (nl @ nl @ ''---'' @ nl @ nl)))"

definition gatherDiscussionContext :: "ContextGatherer \<Rightarrow> string \<Rightarrow> ProjectGetter \<Rightarrow> string" where
  "gatherDiscussionContext g projectID pg =
     (case GetProjectDiscussionFile pg projectID of
        (discussionFile, Some err) \<Rightarrow> []
      | (discussionFile, None) \<Rightarrow>
          (case ReadFile pg discussionFile of
             (content, Some err) \<Rightarrow> []
           | (content, None) \<Rightarrow>
               if length content > 3000 then drop (length content - 3000) content else content))"

fun additional_loop ::
  "golib \<Rightarrow> ProjectGetter \<Rightarrow> string \<Rightarrow> string list \<Rightarrow> FileContext list \<Rightarrow> FileContext list" where
  "additional_loop lib pg baseDir [] contexts = contexts"
| "additional_loop lib pg baseDir (filePath # rest) contexts =
     (case ReadFile pg (resolveFilePath lib baseDir filePath) of
        (content, Some err) \<Rightarrow> additional_loop lib pg baseDir rest contexts
      | (content, None) \<Rightarrow>
          additional_loop lib pg baseDir rest (contexts @ [\<lparr>Path = filePath, Content = content\<rparr>]))"

definition gatherAdditionalFiles ::
  "ContextGatherer \<Rightarrow> golib \<Rightarrow> CompletionRequest \<Rightarrow> string \<Rightarrow> ProjectGetter \<Rightarrow> FileContext list" where
  "gatherAdditionalFiles g lib req baseDir pg = additional_loop lib pg baseDir (ContextFiles req) []"

definition langMap :: "(string \<times> string) list" where
  "langMap =
     [(''.go'', ''Go''), (''.py'', ''Python''), (''.js'', ''JavaScript''), (''.ts'', ''TypeScript''),
      (''.java'', ''Java''), (''.c'', ''C''), (''.cpp'', ''C++''), (''.rs'', ''Rust''),
      (''.rb'', ''Ruby''), (''.php'', ''PHP''), (''.sh'', ''Shell'')]"

definition detectLanguage :: "golib \<Rightarrow> string \<Rightarrow> string" where
  "detectLanguage lib filePath =
     (let ext = strings_ToLower lib (filepath_Ext lib filePath)
      in case map_of langMap ext of Some lang \<Rightarrow> lang | None \<Rightarrow> ''code'')"

definition GatherContext ::
  "ContextGatherer \<Rightarrow> golib \<Rightarrow> CompletionRequest \<Rightarrow> string \<Rightarrow> ProjectGetter \<Rightarrow>
     (error + CompletionContext) option" where
  "GatherContext g lib req fileContent pg =
     (case GetProjectBaseDir pg (ProjectID req) of
        (baseDir, Some err) \<Rightarrow> Some (Inl err)
      | (baseDir, None) \<Rightarrow>
          (let (prefix, suffix) = extractPrefixSuffix fileContent (CursorLine req) (CursorColumn req)
           in case gatherAgentsInstructions g lib baseDir (FilePath req) pg of
                None \<Rightarrow> None
              | Some agentsInstructions \<Rightarrow>
                  (let discussionContext = gatherDiscussionContext g (ProjectID req) pg;
                       additionalContext = gatherAdditionalFiles g lib req baseDir pg;
                       ctx = \<lparr>Prefix = prefix, Suffix = suffix,
                              AgentsInstructions = agentsInstructions,
                              DiscussionContext = discussionContext,
                              AdditionalFiles = additionalContext,
                              Language = detectLanguage lib (FilePath req)\<rparr>
                   in Some (Inr (trimToTokenBudget g ctx)))))"

section \<open>The orchestrator (completion.go)\<close>

text \<open>
  Responses are heap objects: \<^verbatim>\<open>Complete\<close> returns a pointer, \<^verbatim>\<open>Put\<close> stores the pointer
  it is given and \<^verbatim>\<open>Get\<close> returns the pointer it stored. The heap is the list of the
  responses allocated so far and an address is an index into it. A \<open>world\<close> is the
  service with the heap. The readings of \<^verbatim>\<open>time.Now()\<close> during one call of
  \<^verbatim>\<open>Complete\<close> are the fields of a \<open>clock\<close>, in the order of the source: the start, inside
  \<^verbatim>\<open>CheckLimit\<close>, inside \<^verbatim>\<open>Get\<close>, for the latency, for the timestamp, inside \<^verbatim>\<open>Put\<close>.
  The \<^verbatim>\<open>context.Context\<close> of the call (deadline, cancellation) is not modelled.
\<close>

record CompletionService =
  config :: Config
  cache :: "nat Cache"
  rateLimiter :: RateLimiter
  grokker :: "GrokkerClient option"

record world =
  service :: CompletionService
  heap :: "CompletionResponse list"

record clock =
  now_start :: time
  now_limit :: time
  now_get :: time
  now_since :: time
  now_stamp :: time
  now_put :: time

definition NewCompletionService :: "Config option \<Rightarrow> error + CompletionService" where
  "NewCompletionService c =
     (let cfg = (case c of None \<Rightarrow> DefaultConfig | Some c' \<Rightarrow> c')
      in case Validate cfg of
           Some err \<Rightarrow> Inl (Errorf_w ''invalid config: '' err [])
         | None \<Rightarrow>
             Inr \<lparr>config = cfg,
                  cache = NewCache (CacheTTL cfg) (MaxCacheSize cfg) (EnableCache cfg),
                  rateLimiter = NewRateLimiter,
                  grokker = None\<rparr>)"

definition SetGrokkerClient :: "CompletionService \<Rightarrow> GrokkerClient \<Rightarrow> CompletionService" where
  "SetGrokkerClient s client = s\<lparr>grokker := Some client\<rparr>"

fun authorized_loop :: "golib \<Rightarrow> string \<Rightarrow> string \<Rightarrow> string list \<Rightarrow> bool" where
  "authorized_loop lib baseDir targetPath [] = False"
| "authorized_loop lib baseDir targetPath (authFile # rest) =
     (if filepath_Clean lib (resolveFilePath lib baseDir authFile) = filepath_Clean lib targetPath
      then True
      else authorized_loop lib baseDir targetPath rest)"

definition validateRequest :: "golib \<Rightarrow> CompletionRequest \<Rightarrow> ProjectGetter \<Rightarrow> error option" where
  "validateRequest lib req pg =
     (if ProjectID req = [] \<or> FilePath req = [] then Some ErrInvalidRequest
      else case GetProjectAuthorizedFiles pg (ProjectID req) of
             (authorizedFiles, Some err) \<Rightarrow> Some err
           | (authorizedFiles, None) \<Rightarrow>
               (let baseDir = fst (GetProjectBaseDir pg (ProjectID req));
                    targetPath = resolveFilePath lib baseDir (FilePath req)
                in if authorized_loop lib baseDir targetPath authorizedFiles then None
                   else Some (Errorf_w [] ErrFileNotAuthorized ('': '' @ FilePath req))))"

definition systemMsg :: string where
  "systemMsg = ''You are an expert code completion assistant. Complete the code at the cursor position. Output ONLY the completion text.''"

definition Complete ::
  "golib \<Rightarrow> world \<Rightarrow> clock \<Rightarrow> (string \<times> nat CacheEntry) list \<Rightarrow> CompletionRequest \<Rightarrow>
     ProjectGetter \<Rightarrow> ((error + nat) \<times> world) option" where
  "Complete lib w clk visit req pg =
     (let s = service w in
      case validateRequest lib req pg of
        Some err \<Rightarrow> Some (Inl err, w)
      | None \<Rightarrow>
     (let (limited, rl) = CheckLimit (rateLimiter s) (now_limit clk) (ProjectID req)
                            (MaxRequestsPerMinute (config s)) (MaxRequestsPerHour (config s));
          s1 = s\<lparr>rateLimiter := rl\<rparr>;
          w1 = w\<lparr>service := s1\<rparr>
      in case limited of
        Some err \<Rightarrow> Some (Inl err, w1)
      | None \<Rightarrow>
     (let baseDir = fst (GetProjectBaseDir pg (ProjectID req));
          targetPath = resolveFilePath lib baseDir (FilePath req)
      in case ReadFile pg targetPath of
        (fileContent, Some err) \<Rightarrow> Some (Inl (Errorf_w ''failed to read file: '' err []), w1)
      | (fileContent, None) \<Rightarrow>
     (case (if EnableCache (config s)
            then Cache_Get (sha256_hex lib) (cache s) (now_get clk) req fileContent
            else None) of
        Some cached \<Rightarrow>
          Some (Inr cached, w1\<lparr>heap := (heap w)[cached := (heap w ! cached)\<lparr>CachedResult := True\<rparr>]\<rparr>)
      | None \<Rightarrow>
     (case GatherContext \<lparr>maxTokens = MaxContextTokens (config s)\<rparr> lib req fileContent pg of
        None \<Rightarrow> None
      | Some (Inl err) \<Rightarrow> Some (Inl (Errorf_w ''failed to gather context: '' err []), w1)
      | Some (Inr completionCtx) \<Rightarrow>
     (let prompt = FormatPrompt \<lparr>instructionTemplate = []\<rparr> completionCtx;
          llm = (if LLM req = [] then DefaultLLM (config s) else LLM req);
          maxTokens' = (if ReqMaxTokens req = 0 then MaxTokens (config s) else ReqMaxTokens req)
      in case grokker s of
        None \<Rightarrow> Some (Inl (Errorf ''grokker client not set''), w1)
      | Some query \<Rightarrow>
     (case query llm systemMsg prompt maxTokens' of
        (completion, tokensUsed, Some err) \<Rightarrow> Some (Inl (Errorf_w ''LLM call failed: '' err []), w1)
      | (completion, tokensUsed, None) \<Rightarrow>
     (let response = \<lparr>Completion = completion,
                       LatencyMs = Milliseconds (time_Since (now_since clk) (now_start clk)),
                       Model = llm,
                       TokensUsed = tokensUsed,
                       CachedResult = False,
                       Timestamp = now_stamp clk\<rparr>;
          addr = length (heap w);
          heap' = heap w @ [response];
          cache' = (if EnableCache (config s)
                    then Cache_Put (sha256_hex lib) (cache s) visit (now_put clk) req fileContent addr
                    else cache s)
      in Some (Inr addr, w\<lparr>service := s1\<lparr>cache := cache'\<rparr>, heap := heap'\<rparr>)))))))))"


section \<open>Concrete inputs\<close>

text \<open>A cache of \<open>n\<close> entries, written at the instants \<open>0, 1, ..., n - 1\<close> for \<open>n\<close> different projects.\<close>

definition req_n :: "nat \<Rightarrow> CompletionRequest" where
  "req_n i = \<lparr>ProjectID = replicate i CHR ''p'', FilePath = ''f'', CursorLine = 0, CursorColumn = 0,
     LLM = ''m'', ReqMaxTokens = 0, ContextFiles = [], ReqTemperature = Finite 0\<rparr>"

definition entry_n :: "nat \<Rightarrow> nat CacheEntry" where
  "entry_n i = \<lparr>Response = i, CreatedAt = int i, FileHash = []\<rparr>"

definition cache_n :: "nat \<Rightarrow> nat Cache" where
  "cache_n n = \<lparr>entries = map (\<lambda>i. (cacheKey (req_n i), entry_n i)) [0..<n],
     ttl = 300 * time_Second, maxSize = 104857600, enabled = True\<rparr>"

text \<open>
  A context over a budget of 1000 tokens: 5000 bytes of source, 10000 bytes of
  instructions, 5000 bytes of discussion.
\<close>

definition ctx_big :: CompletionContext where
  "ctx_big =
     \<lparr>Prefix = replicate 2500 CHR ''p'',
      Suffix = replicate 2500 CHR ''s'',
      AgentsInstructions = replicate 2000 CHR ''a'' @ replicate 8000 CHR ''b'',
      DiscussionContext = replicate 4000 CHR ''c'' @ replicate 1000 CHR ''d'',
      AdditionalFiles = [],
      Language = ''Go''\<rparr>"

text \<open>
  A project \<open>acme\<close> rooted at \<open>/p\<close> with one authorized file \<open>a.go\<close>, a client that
  always answers, stand-ins for the library functions (the hash is the identity), the
  world \<open>w0\<close> of a new service, and the world \<open>w_after k flag\<close> in which the response to
  \<open>req0\<close> is cached at address 0 with the given flag and \<open>k\<close> calls are counted.
\<close>

definition dir0 :: "string \<Rightarrow> string" where
  "dir0 p =
     (let d = rev (drop 1 (dropWhile (\<lambda>c. c \<noteq> CHR ''/'') (rev p)))
      in if d = [] then (if take 1 p = ''/'' then ''/'' else ''.'') else d)"

definition ext0 :: "string \<Rightarrow> string" where
  "ext0 p =
     (if CHR ''.'' \<in> set p then CHR ''.'' # rev (takeWhile (\<lambda>c. c \<noteq> CHR ''.'') (rev p)) else [])"

definition lib0 :: golib where
  "lib0 =
     \<lparr>filepath_IsAbs = (\<lambda>p. take 1 p = ''/''),
      filepath_Join = (\<lambda>a b. a @ ''/'' @ b),
      filepath_Clean = (\<lambda>p. p),
      filepath_Dir = dir0,
      filepath_Ext = ext0,
      strings_ToLower = (\<lambda>s. s),
      strings_TrimSpace = (\<lambda>s. s),
      sha256_hex = (\<lambda>s. s)\<rparr>"

definition pg0 :: ProjectGetter where
  "pg0 =
     \<lparr>GetProjectBaseDir = (\<lambda>p. (''/p'', None)),
      GetProjectAuthorizedFiles = (\<lambda>p. ([''a.go''], None)),
      GetProjectDiscussionFile = (\<lambda>p. ([], Some ErrFileNotFound)),
      ReadFile = (\<lambda>path. if path = ''/p/a.go'' then (''package main'', None)
                          else ([], Some ErrFileNotFound))\<rparr>"

definition grok0 :: GrokkerClient where
  "grok0 llm sys user maxTok = (''x := 1'', 7, None)"

definition req0 :: CompletionRequest where
  "req0 = \<lparr>ProjectID = ''acme'', FilePath = ''a.go'', CursorLine = 0, CursorColumn = 0,
     LLM = [], ReqMaxTokens = 0, ContextFiles = [], ReqTemperature = Finite 0\<rparr>"

definition svc0 :: CompletionService where
  "svc0 =
     \<lparr>config = DefaultConfig,
      cache = NewCache (CacheTTL DefaultConfig) (MaxCacheSize DefaultConfig) (EnableCache DefaultConfig),
      rateLimiter = NewRateLimiter,
      grokker = Some grok0\<rparr>"

definition w0 :: world where
  "w0 = \<lparr>service = svc0, heap = []\<rparr>"

definition clk_at :: "time \<Rightarrow> clock" where
  "clk_at t = \<lparr>now_start = t, now_limit = t, now_get = t, now_since = t + 2 * time_Second,
     now_stamp = t + 2 * time_Second, now_put = t + 2 * time_Second\<rparr>"

definition resp0 :: CompletionResponse where
  "resp0 = \<lparr>Completion = ''x := 1'', LatencyMs = 2000, Model = ''sonar-deep-research'',
     TokensUsed = 7, CachedResult = False, Timestamp = 2 * time_Second\<rparr>"

definition count_n :: "int \<Rightarrow> RequestCount" where
  "count_n k = \<lparr>Minute = k, Hour = k, LastMinuteReset = 0, LastHourReset = 0\<rparr>"

definition w_after :: "int \<Rightarrow> bool \<Rightarrow> world" where
  "w_after k flag =
     \<lparr>service = svc0
        \<lparr>cache := (cache svc0)\<lparr>entries :=
           [(''acme:a.go:0:0:'', \<lparr>Response = 0, CreatedAt = 2 * time_Second, FileHash = ''package main''\<rparr>)]\<rparr>,
         rateLimiter := \<lparr>requestCounts = [''acme'' \<mapsto> count_n k]\<rparr>\<rparr>,
      heap = [resp0\<lparr>CachedResult := flag\<rparr>]\<rparr>"

section \<open>Properties of the cache\<close>

text \<open>
  C4. For an enabled cache, \<^verbatim>\<open>Get\<close> returns the stored response exactly when an entry
  exists for the key, its age \<open>now - createdAt\<close> is at most the TTL, and the hash of the
  current content equals the hash stored at write time; a disabled cache returns absent.
\<close>

theorem Cache_Get_iff:
  "Cache_Get H c now req content = Some r \<longleftrightarrow>
     enabled c \<and>
     (\<exists>entry. map_of (entries c) (cacheKey req) = Some entry \<and> Response entry = r \<and>
        time_Since now (CreatedAt entry) \<le> ttl c \<and> H content = FileHash entry)"
  by (auto simp: Cache_Get_def split: option.splits)

lemma Cache_Get_maxSize:
  "Cache_Get H (c\<lparr>maxSize := m\<rparr>) now req content = Cache_Get H c now req content"
  by (simp add: Cache_Get_def split: option.splits)

lemma Cache_Put_maxSize:
  "Cache_Put H (c\<lparr>maxSize := m\<rparr>) visit now req content r =
     (Cache_Put H c visit now req content r)\<lparr>maxSize := m\<rparr>"
  by (simp add: Cache_Put_def)

lemma run_cache_maxSize:
  "run_cache H (c\<lparr>maxSize := m\<rparr>) ops =
     (fst (run_cache H c ops), (snd (run_cache H c ops))\<lparr>maxSize := m\<rparr>)"
proof (induction ops arbitrary: c)
  case Nil
  show ?case by simp
next
  case (Cons op ops)
  show ?case
  proof (cases op)
    case (OpGet now req content)
    then show ?thesis
      using Cons.IH [of c] by (simp add: Cache_Get_maxSize split: prod.splits)
  next
    case (OpPut visit now req content r)
    then show ?thesis
      using Cons.IH [of "Cache_Put H c visit now req content r"]
      by (simp add: Cache_Put_maxSize)
  qed
qed

lemma evict_small: "evict visit (take 1000 es) = take 1000 es"
  by (simp add: evict_def)

text \<open>
  C10. The configured maximum size has no effect: two caches built by \<open>NewCache\<close> that
  differ in the \<open>maxSize\<close> argument only give, on every sequence of \<^verbatim>\<open>Get\<close> and
  \<^verbatim>\<open>Put\<close> calls, the same results and the same final entries. The eviction threshold is
  the constant 1000: a map of at most 1000 entries is never evicted from, whatever the
  cache was configured with.
\<close>

theorem maxSize_no_effect:
  "fst (run_cache H (NewCache t m1 e) ops) = fst (run_cache H (NewCache t m2 e) ops) \<and>
   entries (snd (run_cache H (NewCache t m1 e) ops)) = entries (snd (run_cache H (NewCache t m2 e) ops)) \<and>
   evict visit (take 1000 es) = take 1000 es"
proof -
  have "NewCache t m1 e = (NewCache t m2 e :: 'a Cache)\<lparr>maxSize := m1\<rparr>"
    by (simp add: NewCache_def)
  then show ?thesis
    using run_cache_maxSize [where H = H and c = "NewCache t m2 e" and m = m1 and ops = ops] by (simp add: evict_small)
qed


lemma oldest_scan_min:
  assumes "[] \<notin> fst ` set visit" and "ok \<noteq> []"
  shows "(oldest_scan visit ok ot = ok \<and> (\<forall>(k', e') \<in> set visit. ot \<le> CreatedAt e')) \<or>
         (\<exists>e. (oldest_scan visit ok ot, e) \<in> set visit \<and> CreatedAt e \<le> ot \<and>
              (\<forall>(k', e') \<in> set visit. CreatedAt e \<le> CreatedAt e'))"
  using assms
proof (induction visit arbitrary: ok ot)
  case Nil
  then show ?case by simp
next
  case (Cons p rest)
  obtain key entry where p: "p = (key, entry)" by (cases p)
  from Cons.prems p have key: "key \<noteq> []" and rest: "[] \<notin> fst ` set rest" by auto
  show ?case
  proof (cases "CreatedAt entry < ot")
    case True
    define res where "res = oldest_scan rest key (CreatedAt entry)"
    have step: "oldest_scan (p # rest) ok ot = res"
      using True p by (simp add: res_def time_Before_def)
    from Cons.IH [OF rest key, of "CreatedAt entry"]
    consider (a) "res = key" "\<forall>(k', e') \<in> set rest. CreatedAt entry \<le> CreatedAt e'"
      | (b) e where "(res, e) \<in> set rest" "CreatedAt e \<le> CreatedAt entry"
          "\<forall>(k', e') \<in> set rest. CreatedAt e \<le> CreatedAt e'"
      unfolding res_def by blast
    then have "\<exists>e. (res, e) \<in> set (p # rest) \<and> CreatedAt e \<le> ot \<and>
              (\<forall>(k', e') \<in> set (p # rest). CreatedAt e \<le> CreatedAt e')"
    proof cases
      case a
      with True p show ?thesis by (intro exI [of _ entry]) simp
    next
      case b
      with True p show ?thesis by (intro exI [of _ e]) auto
    qed
    with step show ?thesis by simp
  next
    case False
    define res where "res = oldest_scan rest ok ot"
    have step: "oldest_scan (p # rest) ok ot = res"
      using False p Cons.prems(2) by (simp add: res_def time_Before_def)
    from Cons.IH [OF rest Cons.prems(2), of ot]
    consider (a) "res = ok" "\<forall>(k', e') \<in> set rest. ot \<le> CreatedAt e'"
      | (b) e where "(res, e) \<in> set rest" "CreatedAt e \<le> ot"
          "\<forall>(k', e') \<in> set rest. CreatedAt e \<le> CreatedAt e'"
      unfolding res_def by blast
    then show ?thesis
    proof cases
      case a
      with False p step show ?thesis by simp
    next
      case b
      have "\<exists>e. (res, e) \<in> set (p # rest) \<and> CreatedAt e \<le> ot \<and>
              (\<forall>(k', e') \<in> set (p # rest). CreatedAt e \<le> CreatedAt e')"
        using b False p by (intro exI [of _ e]) auto
      with step show ?thesis by simp
    qed
  qed
qed


lemma oldest_scan_first:
  assumes "[] \<notin> fst ` set visit" and "visit \<noteq> []"
  shows "\<exists>e. (oldest_scan visit [] ot, e) \<in> set visit \<and>
              (\<forall>(k', e') \<in> set visit. CreatedAt e \<le> CreatedAt e')"
proof -
  obtain key entry rest where v: "visit = (key, entry) # rest"
    using assms(2) by (cases visit) auto
  with assms(1) have key: "key \<noteq> []" and rest: "[] \<notin> fst ` set rest" by auto
  have step: "oldest_scan visit [] ot = oldest_scan rest key (CreatedAt entry)"
    using v by simp
  from oldest_scan_min [OF rest key, of "CreatedAt entry"]
  consider (a) "oldest_scan visit [] ot = key" "\<forall>(k', e') \<in> set rest. CreatedAt entry \<le> CreatedAt e'"
    | (b) e where "(oldest_scan visit [] ot, e) \<in> set rest" "CreatedAt e \<le> CreatedAt entry"
        "\<forall>(k', e') \<in> set rest. CreatedAt e \<le> CreatedAt e'"
    unfolding step by blast
  then show ?thesis
  proof cases
    case a
    with v show ?thesis by (intro exI [of _ entry]) simp
  next
    case b
    with v show ?thesis by (intro exI [of _ e]) auto
  qed
qed

lemma length_delete_distinct:
  "distinct (map fst es) \<Longrightarrow> k \<in> fst ` set es \<Longrightarrow> Suc (length (AList.delete k es)) = length es"
proof (induction es)
  case Nil
  then show ?case by simp
next
  case (Cons p es)
  obtain k' e' where p: "p = (k', e')" by (cases p)
  show ?case
  proof (cases "k' = k")
    case True
    with Cons.prems p have "k \<notin> fst ` set es" by auto
    then have "AList.delete k es = es" by (simp add: delete_id)
    with True p show ?thesis by simp
  next
    case False
    with Cons.prems p have "distinct (map fst es)" and "k \<in> fst ` set es" by auto
    from Cons.IH [OF this] False p show ?thesis by simp
  qed
qed

lemma evict_over:
  assumes d: "distinct (map fst es)" and ne: "[] \<notin> fst ` set es"
    and v: "set visit = set es" and n: "1000 < length es"
  shows "\<exists>k e. (k, e) \<in> set es \<and> (\<forall>(k', e') \<in> set es. CreatedAt e \<le> CreatedAt e') \<and>
           evict visit es = AList.delete k es \<and> Suc (length (evict visit es)) = length es"
proof -
  from n have "es \<noteq> []" by auto
  with v have vne: "visit \<noteq> []" by auto
  from ne v have "[] \<notin> fst ` set visit" by simp
  from oldest_scan_first [OF this vne, of zeroTime]
  obtain e where e: "(oldest_scan visit [] zeroTime, e) \<in> set visit"
    and m: "\<forall>(k', e') \<in> set visit. CreatedAt e \<le> CreatedAt e'" by blast
  let ?k = "oldest_scan visit [] zeroTime"
  from e v have mem: "(?k, e) \<in> set es" by simp
  then have kin: "?k \<in> fst ` set es" by force
  with ne have "?k \<noteq> []" by metis
  with n have ev: "evict visit es = AList.delete ?k es" by (simp add: evict_def)
  from length_delete_distinct [OF d kin] ev
  have "Suc (length (evict visit es)) = length es" by simp
  with mem m v ev show ?thesis by blast
qed

lemma evict_under: "length es \<le> 1000 \<Longrightarrow> evict visit es = es"
  by (simp add: evict_def)

lemma update_fresh: "map_of es k = None \<Longrightarrow> AList.update k v es = es @ [(k, v)]"
  by (induction es) (auto split: if_splits)


lemma cacheKey_nonempty: "cacheKey req \<noteq> []"
  by (simp add: cacheKey_def)

lemma evict_keys: "fst ` set (evict visit es) \<subseteq> fst ` set es"
  using dom_delete_subset [of "oldest_scan visit [] zeroTime" es] by (simp add: evict_def Let_def)

lemma evict_distinct: "distinct (map fst es) \<Longrightarrow> distinct (map fst (evict visit es))"
  by (simp add: evict_def Let_def distinct_delete)

lemma evict_length:
  assumes "distinct (map fst es)" and "[] \<notin> fst ` set es" and "set visit = set es"
    and "length es \<le> 1001"
  shows "length (evict visit es) \<le> 1000"
proof (cases "length es \<le> 1000")
  case True
  then show ?thesis by (simp add: evict_under)
next
  case False
  then have "1000 < length es" by simp
  from evict_over [OF assms(1-3) this] assms(4) show ?thesis by auto
qed

lemma length_update_le: "length (AList.update k v es) \<le> Suc (length es)"
  by (induction es) auto

lemma Cache_Put_inv:
  assumes "cache_inv c" and "set visit = set (entries c)"
  shows "cache_inv (Cache_Put H c visit now req content r)"
proof (cases "enabled c")
  case False
  with assms(1) show ?thesis by (simp add: Cache_Put_def)
next
  case True
  let ?es = "evict visit (entries c)"
  let ?new = "\<lparr>Response = r, CreatedAt = now, FileHash = H content\<rparr>"
  from assms have d: "distinct (map fst ?es)" and l: "length ?es \<le> 1000"
    by (simp_all add: cache_inv_def evict_distinct evict_length)
  from assms(1) evict_keys [of visit "entries c"] have k: "[] \<notin> fst ` set ?es"
    by (auto simp: cache_inv_def)
  have "distinct (map fst (AList.update (cacheKey req) ?new ?es))"
    using d by (rule distinct_update)
  moreover have "[] \<notin> fst ` set (AList.update (cacheKey req) ?new ?es)"
    using k cacheKey_nonempty [of req] by (simp add: dom_update)
  moreover have "length (AList.update (cacheKey req) ?new ?es) \<le> 1001"
    using l length_update_le [of "cacheKey req" ?new ?es] by simp
  ultimately show ?thesis using True by (simp add: cache_inv_def Cache_Put_def)
qed

lemma run_cache_inv:
  "cache_inv c \<Longrightarrow> visits_ok H c ops \<Longrightarrow> cache_inv (snd (run_cache H c ops))"
proof (induction ops arbitrary: c)
  case Nil
  then show ?case by simp
next
  case (Cons op ops)
  show ?case
  proof (cases op)
    case (OpGet now req content)
    with Cons.prems Cons.IH [of c] show ?thesis by (cases "run_cache H c ops") simp
  next
    case (OpPut visit now req content r)
    with Cons.prems have "cache_inv (Cache_Put H c visit now req content r)"
      and "visits_ok H (Cache_Put H c visit now req content r) ops"
      by (simp_all add: Cache_Put_inv)
    from Cons.IH [OF this] OpPut show ?thesis by simp
  qed
qed

lemma NewCache_inv: "cache_inv (NewCache t m e)"
  by (simp add: cache_inv_def NewCache_def)


lemma cacheKey_req_n: "cacheKey (req_n i) = replicate i CHR ''p'' @ '':f:0:0:m''"
  by (simp add: cacheKey_def req_n_def fmt_d_def nat_digits.simps digit_char_def)

lemma cacheKey_req_n_inj: "cacheKey (req_n i) = cacheKey (req_n j) \<longleftrightarrow> i = j"
proof
  assume "cacheKey (req_n i) = cacheKey (req_n j)"
  then have "length (cacheKey (req_n i)) = length (cacheKey (req_n j))" by simp
  then show "i = j" by (simp add: cacheKey_req_n)
qed simp

lemma length_cache_n: "length (entries (cache_n n)) = n"
  by (simp add: cache_n_def)

lemma keys_cache_n: "fst ` set (entries (cache_n n)) = (\<lambda>i. cacheKey (req_n i)) ` {0..<n}"
  by (simp add: cache_n_def image_image)

lemma fresh_cache_n: "n \<le> m \<Longrightarrow> map_of (entries (cache_n n)) (cacheKey (req_n m)) = None"
  by (auto simp: map_of_eq_None_iff keys_cache_n cacheKey_req_n_inj)

lemma distinct_cache_n: "distinct (map fst (entries (cache_n n)))"
  by (simp add: cache_n_def comp_def distinct_map inj_on_def cacheKey_req_n_inj)

lemma nonempty_keys_cache_n: "[] \<notin> fst ` set (entries (cache_n n))"
  by (auto simp: keys_cache_n cacheKey_nonempty [symmetric])

lemma enabled_cache_n: "enabled (cache_n n)"
  by (simp add: cache_n_def)

lemma Cache_Put_under:
  assumes "enabled c" and "map_of (entries c) (cacheKey req) = None" and "length (entries c) \<le> 1000"
  shows "entries (Cache_Put H c visit now req content r) =
     entries c @ [(cacheKey req, \<lparr>Response = r, CreatedAt = now, FileHash = H content\<rparr>)]"
  using assms by (simp add: Cache_Put_def evict_under update_fresh)

lemma Cache_Put_over:
  assumes en: "enabled c" and fresh: "map_of (entries c) (cacheKey req) = None"
    and d: "distinct (map fst (entries c))" and ne: "[] \<notin> fst ` set (entries c)"
    and v: "set visit = set (entries c)" and n: "1000 < length (entries c)"
  shows "\<exists>k e. (k, e) \<in> set (entries c) \<and> (\<forall>(k', e') \<in> set (entries c). CreatedAt e \<le> CreatedAt e') \<and>
     entries (Cache_Put H c visit now req content r) =
       AList.delete k (entries c) @ [(cacheKey req, \<lparr>Response = r, CreatedAt = now, FileHash = H content\<rparr>)] \<and>
     length (entries (Cache_Put H c visit now req content r)) = length (entries c)"
proof -
  let ?new = "\<lparr>Response = r, CreatedAt = now, FileHash = H content\<rparr>"
  from evict_over [OF d ne v n]
  obtain k e where mem: "(k, e) \<in> set (entries c)"
    and m: "\<forall>(k', e') \<in> set (entries c). CreatedAt e \<le> CreatedAt e'"
    and ev: "evict visit (entries c) = AList.delete k (entries c)"
    and len: "Suc (length (evict visit (entries c))) = length (entries c)" by blast
  from fresh have "map_of (AList.delete k (entries c)) (cacheKey req) = None"
    by (simp add: delete_conv')
  then have "AList.update (cacheKey req) ?new (AList.delete k (entries c)) =
      AList.delete k (entries c) @ [(cacheKey req, ?new)]"
    by (rule update_fresh)
  with en ev have eq: "entries (Cache_Put H c visit now req content r) =
      AList.delete k (entries c) @ [(cacheKey req, ?new)]"
    by (simp add: Cache_Put_def)
  with len ev have "length (entries (Cache_Put H c visit now req content r)) = length (entries c)"
    by simp
  with mem m eq show ?thesis by blast
qed

lemma run_cache_bound:
  assumes "visits_ok H (NewCache t m en) ops"
  shows "length (entries (snd (run_cache H (NewCache t m en) ops))) \<le> 1001"
  using run_cache_inv [OF NewCache_inv assms] by (simp add: cache_inv_def)

text \<open>
  C3, as the code has it. \<^verbatim>\<open>Put\<close> evicts before it inserts, and only when more than 1000
  entries are resident. Inserting a new key into an enabled cache of at most 1000 entries
  evicts nothing, so a cache of 1000 entries grows to 1001. Inserting a new key into a
  cache of more than 1000 entries removes exactly one entry, one whose creation time is
  the smallest among the resident entries, and then appends the new one, so the count
  stays the same. On every run from \<open>NewCache\<close> the count never exceeds 1001.
\<close>

theorem Cache_Put_eviction:
  "(enabled c \<and> map_of (entries c) (cacheKey req) = None \<and> length (entries c) \<le> 1000 \<longrightarrow>
      entries (Cache_Put H c visit now req content r) =
        entries c @ [(cacheKey req, \<lparr>Response = r, CreatedAt = now, FileHash = H content\<rparr>)]) \<and>
   (enabled c \<and> map_of (entries c) (cacheKey req) = None \<and> distinct (map fst (entries c)) \<and>
    [] \<notin> fst ` set (entries c) \<and> set visit = set (entries c) \<and> 1000 < length (entries c) \<longrightarrow>
      (\<exists>k e. (k, e) \<in> set (entries c) \<and> (\<forall>(k', e') \<in> set (entries c). CreatedAt e \<le> CreatedAt e') \<and>
         entries (Cache_Put H c visit now req content r) =
           AList.delete k (entries c) @ [(cacheKey req, \<lparr>Response = r, CreatedAt = now, FileHash = H content\<rparr>)] \<and>
         length (entries (Cache_Put H c visit now req content r)) = length (entries c))) \<and>
   (visits_ok H (NewCache t m en) ops \<longrightarrow>
      length (entries (snd (run_cache H (NewCache t m en) ops :: 'r option list \<times> 'r Cache))) \<le> 1001)"
  using Cache_Put_under [of c req H visit now content r]
    Cache_Put_over [of c req visit H now content r]
    run_cache_bound [of H t m en ops]
  by blast

theorem Cache_Put_eviction_witness:
  "entries (Cache_Put id (cache_n 3) [] 5000 (req_n 3) [] 3) =
     entries (cache_n 3) @ [(cacheKey (req_n 3), \<lparr>Response = 3, CreatedAt = 5000, FileHash = []\<rparr>)] \<and>
   enabled (cache_n 1001) \<and> map_of (entries (cache_n 1001)) (cacheKey (req_n 1001)) = None \<and>
   distinct (map fst (entries (cache_n 1001))) \<and> [] \<notin> fst ` set (entries (cache_n 1001)) \<and>
   1000 < length (entries (cache_n 1001)) \<and>
   (\<exists>k e. (k, e) \<in> set (entries (cache_n 1001)) \<and>
      (\<forall>(k', e') \<in> set (entries (cache_n 1001)). CreatedAt e \<le> CreatedAt e') \<and>
      entries (Cache_Put id (cache_n 1001) (rev (entries (cache_n 1001))) 5000 (req_n 1001) [] 1001) =
        AList.delete k (entries (cache_n 1001)) @
          [(cacheKey (req_n 1001), \<lparr>Response = 1001, CreatedAt = 5000, FileHash = []\<rparr>)] \<and>
      length (entries (Cache_Put id (cache_n 1001) (rev (entries (cache_n 1001))) 5000 (req_n 1001) [] 1001)) = 1001) \<and>
   length (entries (snd (run_cache id (NewCache 300 0 True) [OpPut [] 0 (req_n 0) [] (0::nat)]))) \<le> 1001"
proof -
  have f3: "map_of (entries (cache_n 3)) (cacheKey (req_n 3)) = None"
    by (rule fresh_cache_n) simp
  have f: "map_of (entries (cache_n 1001)) (cacheKey (req_n 1001)) = None"
    by (rule fresh_cache_n) simp
  have v: "set (rev (entries (cache_n 1001))) = set (entries (cache_n 1001))" by simp
  have ok: "visits_ok id (NewCache 300 0 True) [OpPut [] 0 (req_n 0) [] (0::nat)]"
    by (simp add: NewCache_def)
  from Cache_Put_eviction [of "cache_n 3" "req_n 3" id "[]" 5000 "[]" 3, THEN conjunct1]
  have a: "entries (Cache_Put id (cache_n 3) [] 5000 (req_n 3) [] 3) =
     entries (cache_n 3) @ [(cacheKey (req_n 3), \<lparr>Response = 3, CreatedAt = 5000, FileHash = []\<rparr>)]"
    using f3 by (simp add: enabled_cache_n length_cache_n)
  from Cache_Put_eviction [of "cache_n 1001" "req_n 1001" id "rev (entries (cache_n 1001))" 5000 "[]" 1001,
      THEN conjunct2, THEN conjunct1]
  have b: "\<exists>k e. (k, e) \<in> set (entries (cache_n 1001)) \<and>
      (\<forall>(k', e') \<in> set (entries (cache_n 1001)). CreatedAt e \<le> CreatedAt e') \<and>
      entries (Cache_Put id (cache_n 1001) (rev (entries (cache_n 1001))) 5000 (req_n 1001) [] 1001) =
        AList.delete k (entries (cache_n 1001)) @
          [(cacheKey (req_n 1001), \<lparr>Response = 1001, CreatedAt = 5000, FileHash = []\<rparr>)] \<and>
      length (entries (Cache_Put id (cache_n 1001) (rev (entries (cache_n 1001))) 5000 (req_n 1001) [] 1001)) = 1001"
    using f v by (simp add: enabled_cache_n length_cache_n distinct_cache_n nonempty_keys_cache_n)
  from Cache_Put_eviction [where H = id and t = 300 and m = 0 and en = True
      and ops = "[OpPut [] 0 (req_n 0) [] (0::nat)]", THEN conjunct2, THEN conjunct2] ok
  have c: "length (entries (snd (run_cache id (NewCache 300 0 True) [OpPut [] 0 (req_n 0) [] (0::nat)]))) \<le> 1001"
    by blast
  from a b c f show ?thesis
    by (simp add: enabled_cache_n length_cache_n distinct_cache_n nonempty_keys_cache_n)
qed


text \<open>
  The 1001st distinct key, put into a cache of 1000 resident entries: nothing is evicted
  and 1001 entries are resident afterwards.
\<close>

theorem Cache_Put_at_1000_counterexample:
  "length (entries (cache_n 1000)) = 1000 \<and>
   map_of (entries (cache_n 1000)) (cacheKey (req_n 1000)) = None \<and>
   entries (Cache_Put id (cache_n 1000) (entries (cache_n 1000)) 5000 (req_n 1000) [] 1000) =
     entries (cache_n 1000) @ [(cacheKey (req_n 1000), \<lparr>Response = 1000, CreatedAt = 5000, FileHash = []\<rparr>)] \<and>
   \<not> length (entries (Cache_Put id (cache_n 1000) (entries (cache_n 1000)) 5000 (req_n 1000) [] 1000)) \<le> 1000"
proof -
  have f: "map_of (entries (cache_n 1000)) (cacheKey (req_n 1000)) = None"
    by (rule fresh_cache_n) simp
  have l: "length (entries (cache_n 1000)) \<le> 1000" by (simp add: length_cache_n)
  from Cache_Put_under [OF enabled_cache_n f l, of id "entries (cache_n 1000)" 5000 "[]" 1000]
  show ?thesis using f by (simp add: length_cache_n)
qed


section \<open>Properties of the rate limiter\<close>

lemma minute_lt_hour: "d < time_Minute \<Longrightarrow> d < time_Hour"
  by (simp add: time_Minute_def time_Hour_def time_Second_def)

lemma reset_windows_open:
  "time_Sub now (LastMinuteReset c) < time_Minute \<Longrightarrow> time_Sub now (LastHourReset c) < time_Hour \<Longrightarrow>
   reset_windows now c = c"
  by (simp add: reset_windows_def)

lemma CheckLimit_accept:
  assumes "requestCounts r p = Some c"
    and "time_Sub now (LastMinuteReset c) < time_Minute" and "time_Sub now (LastHourReset c) < time_Hour"
    and "Minute c < mm" and "Hour c < mh"
  shows "CheckLimit r now p mm mh =
     (None, r\<lparr>requestCounts := (requestCounts r)(p \<mapsto> c\<lparr>Minute := Minute c + 1, Hour := Hour c + 1\<rparr>)\<rparr>)"
  using assms by (simp add: CheckLimit_def lookup_count_def reset_windows_open)

lemma CheckLimit_reject_minute:
  assumes "requestCounts r p = Some c"
    and "time_Sub now (LastMinuteReset c) < time_Minute" and "time_Sub now (LastHourReset c) < time_Hour"
    and "mm \<le> Minute c"
  shows "CheckLimit r now p mm mh =
     (Some (CompletionError ''RATE_LIMIT'' ''per-minute rate limit exceeded'' (Some ErrRateLimitExceeded)), r)"
proof -
  from assms(1) have "(requestCounts r)(p \<mapsto> c) = requestCounts r" by (rule map_upd_triv)
  with assms show ?thesis
    by (simp add: CheckLimit_def lookup_count_def reset_windows_open WrapRateLimitError_def
        NewCompletionError_def CodeRateLimit_def)
qed

lemma CheckLimit_fresh:
  assumes "requestCounts r p = None" and "0 < mm" and "0 < mh"
  shows "CheckLimit r now p mm mh =
     (None, r\<lparr>requestCounts := (requestCounts r)(p \<mapsto>
        \<lparr>Minute = 1, Hour = 1, LastMinuteReset = now, LastHourReset = now\<rparr>)\<rparr>)"
proof -
  have "time_Sub now now = 0" by (simp add: time_Sub_def maxDuration_def minDuration_def)
  then have "reset_windows now \<lparr>Minute = 0, Hour = 0, LastMinuteReset = now, LastHourReset = now\<rparr>
      = \<lparr>Minute = 0, Hour = 0, LastMinuteReset = now, LastHourReset = now\<rparr>"
    by (simp add: reset_windows_def time_Minute_def time_Hour_def time_Second_def)
  with assms show ?thesis by (simp add: CheckLimit_def lookup_count_def)
qed


lemma CheckLimit_seq_accept:
  assumes "requestCounts r p = Some \<lparr>Minute = k, Hour = k, LastMinuteReset = t0, LastHourReset = t0\<rparr>"
    and "\<forall>t\<in>set ts. time_Sub t t0 < time_Minute"
    and "k + int (length ts) \<le> mm" and "k + int (length ts) \<le> mh"
  shows "CheckLimit_seq r p mm mh ts =
     (replicate (length ts) None,
      r\<lparr>requestCounts := (requestCounts r)(p \<mapsto>
        \<lparr>Minute = k + int (length ts), Hour = k + int (length ts),
         LastMinuteReset = t0, LastHourReset = t0\<rparr>)\<rparr>)"
  using assms
proof (induction ts arbitrary: r k)
  case Nil
  then have "(requestCounts r)(p \<mapsto> \<lparr>Minute = k, Hour = k, LastMinuteReset = t0, LastHourReset = t0\<rparr>)
      = requestCounts r" by (simp add: map_upd_triv)
  then show ?case by simp
next
  case (Cons t ts)
  define r1 where "r1 = r\<lparr>requestCounts := (requestCounts r)(p \<mapsto>
      \<lparr>Minute = k + 1, Hour = k + 1, LastMinuteReset = t0, LastHourReset = t0\<rparr>)\<rparr>"
  from Cons.prems have w: "time_Sub t t0 < time_Minute" by simp
  have step: "CheckLimit r t p mm mh = (None, r1)"
    using CheckLimit_accept [OF Cons.prems(1), of t mm mh] w minute_lt_hour [OF w] Cons.prems(3,4)
    by (simp add: r1_def)
  have rc: "requestCounts r1 p = Some \<lparr>Minute = k + 1, Hour = k + 1, LastMinuteReset = t0, LastHourReset = t0\<rparr>"
    by (simp add: r1_def)
  have ih: "CheckLimit_seq r1 p mm mh ts =
     (replicate (length ts) None,
      r1\<lparr>requestCounts := (requestCounts r1)(p \<mapsto>
        \<lparr>Minute = (k + 1) + int (length ts), Hour = (k + 1) + int (length ts),
         LastMinuteReset = t0, LastHourReset = t0\<rparr>)\<rparr>)"
    using Cons.prems by (intro Cons.IH [OF rc]) simp_all
  have fin: "r1\<lparr>requestCounts := (requestCounts r1)(p \<mapsto>
        \<lparr>Minute = (k + 1) + int (length ts), Hour = (k + 1) + int (length ts),
         LastMinuteReset = t0, LastHourReset = t0\<rparr>)\<rparr> =
      r\<lparr>requestCounts := (requestCounts r)(p \<mapsto>
        \<lparr>Minute = k + int (length (t # ts)), Hour = k + int (length (t # ts)),
         LastMinuteReset = t0, LastHourReset = t0\<rparr>)\<rparr>"
    by (simp add: r1_def add.assoc)
  have "CheckLimit_seq r p mm mh (t # ts) =
     (replicate (length (t # ts)) None,
      r1\<lparr>requestCounts := (requestCounts r1)(p \<mapsto>
        \<lparr>Minute = (k + 1) + int (length ts), Hour = (k + 1) + int (length ts),
         LastMinuteReset = t0, LastHourReset = t0\<rparr>)\<rparr>)"
    by (simp add: step ih)
  then show ?case by (simp only: fin)
qed

lemma CheckLimit_seq_snoc:
  "CheckLimit_seq r p mm mh (ts @ [t]) =
     (fst (CheckLimit_seq r p mm mh ts) @ [fst (CheckLimit (snd (CheckLimit_seq r p mm mh ts)) t p mm mh)],
      snd (CheckLimit (snd (CheckLimit_seq r p mm mh ts)) t p mm mh))"
  by (induction ts arbitrary: r) (simp_all add: split_beta)


lemma CheckLimit_eleven:
  assumes fresh: "requestCounts r p = None" and n: "length ts = 9"
    and w: "\<forall>t\<in>set (ts @ [t11]). time_Sub t t0 < time_Minute"
  shows "fst (CheckLimit_seq r p 10 50 (t0 # ts @ [t11])) =
           replicate 10 None @
           [Some (CompletionError CodeRateLimit ''per-minute rate limit exceeded'' (Some ErrRateLimitExceeded))]"
    and "snd (CheckLimit_seq r p 10 50 (t0 # ts @ [t11])) =
           r\<lparr>requestCounts := (requestCounts r)(p \<mapsto>
             \<lparr>Minute = 10, Hour = 10, LastMinuteReset = t0, LastHourReset = t0\<rparr>)\<rparr>"
proof -
  define r1 where "r1 = r\<lparr>requestCounts := (requestCounts r)(p \<mapsto>
      \<lparr>Minute = 1, Hour = 1, LastMinuteReset = t0, LastHourReset = t0\<rparr>)\<rparr>"
  define r10 where "r10 = r\<lparr>requestCounts := (requestCounts r)(p \<mapsto>
      \<lparr>Minute = 10, Hour = 10, LastMinuteReset = t0, LastHourReset = t0\<rparr>)\<rparr>"
  have first: "CheckLimit r t0 p 10 50 = (None, r1)"
    using CheckLimit_fresh [OF fresh, of 10 50 t0] by (simp add: r1_def)
  have rc1: "requestCounts r1 p = Some \<lparr>Minute = 1, Hour = 1, LastMinuteReset = t0, LastHourReset = t0\<rparr>"
    by (simp add: r1_def)
  from w have wts: "\<forall>t\<in>set ts. time_Sub t t0 < time_Minute" by simp
  have "CheckLimit_seq r1 p 10 50 ts =
     (replicate (length ts) None,
      r1\<lparr>requestCounts := (requestCounts r1)(p \<mapsto>
        \<lparr>Minute = 1 + int (length ts), Hour = 1 + int (length ts),
         LastMinuteReset = t0, LastHourReset = t0\<rparr>)\<rparr>)"
    using n by (intro CheckLimit_seq_accept [OF rc1 wts]) simp_all
  with n have mid: "CheckLimit_seq r1 p 10 50 ts = (replicate 9 None, r10)"
    by (simp add: r1_def r10_def)
  have rc10: "requestCounts r10 p = Some \<lparr>Minute = 10, Hour = 10, LastMinuteReset = t0, LastHourReset = t0\<rparr>"
    by (simp add: r10_def)
  from w have w11: "time_Sub t11 t0 < time_Minute" by simp
  have last: "CheckLimit r10 t11 p 10 50 =
     (Some (CompletionError ''RATE_LIMIT'' ''per-minute rate limit exceeded'' (Some ErrRateLimitExceeded)), r10)"
    using w11 minute_lt_hour [OF w11] by (intro CheckLimit_reject_minute [OF rc10]) simp_all
  have "CheckLimit_seq r1 p 10 50 (ts @ [t11]) =
     (replicate 9 None @
        [Some (CompletionError ''RATE_LIMIT'' ''per-minute rate limit exceeded'' (Some ErrRateLimitExceeded))], r10)"
    by (simp add: CheckLimit_seq_snoc mid last)
  with first have all: "CheckLimit_seq r p 10 50 (t0 # ts @ [t11]) =
     (None # replicate 9 None @
        [Some (CompletionError ''RATE_LIMIT'' ''per-minute rate limit exceeded'' (Some ErrRateLimitExceeded))], r10)"
    by simp
  have rep: "replicate 10 None = None # replicate 9 (None :: error option)"
    by (simp add: numeral_eq_Suc)
  from all show "fst (CheckLimit_seq r p 10 50 (t0 # ts @ [t11])) =
           replicate 10 None @
           [Some (CompletionError CodeRateLimit ''per-minute rate limit exceeded'' (Some ErrRateLimitExceeded))]"
    by (simp add: rep CodeRateLimit_def)
  from all show "snd (CheckLimit_seq r p 10 50 (t0 # ts @ [t11])) =
           r\<lparr>requestCounts := (requestCounts r)(p \<mapsto>
             \<lparr>Minute = 10, Hour = 10, LastMinuteReset = t0, LastHourReset = t0\<rparr>)\<rparr>"
    by (simp add: r10_def)
qed

lemma CheckLimit_rollover:
  assumes "requestCounts r p = Some \<lparr>Minute = 10, Hour = 10, LastMinuteReset = t0, LastHourReset = t0\<rparr>"
    and "time_Minute \<le> time_Sub t t0"
  shows "fst (CheckLimit r t p 10 50) = None"
  using assms by (simp add: CheckLimit_def lookup_count_def reset_windows_def Let_def)

lemma CheckLimit_counters:
  "(fst (CheckLimit r now p mm mh) \<noteq> None \<longrightarrow>
      requestCounts (snd (CheckLimit r now p mm mh)) p = Some (reset_windows now (lookup_count r now p))) \<and>
   (fst (CheckLimit r now p mm mh) = None \<longrightarrow>
      requestCounts (snd (CheckLimit r now p mm mh)) p =
        Some ((reset_windows now (lookup_count r now p))
          \<lparr>Minute := Minute (reset_windows now (lookup_count r now p)) + 1,
           Hour := Hour (reset_windows now (lookup_count r now p)) + 1\<rparr>))"
  by (simp add: CheckLimit_def Let_def)


text \<open>
  C5. For a project the limiter has not seen, with thresholds 10 per minute and 50 per
  hour, eleven calls that all fall within 60 seconds of the first: the first ten are
  accepted and the eleventh is rejected with the rate-limit error, the counters standing
  at 10 and 10; a call made once the minute window has rolled over is accepted again.
  For every call: a rejection leaves both counters as the window resets left them, an
  acceptance increments both by one.
\<close>

theorem CheckLimit_ten_per_minute:
  "(requestCounts r p = None \<and> length ts = 9 \<and> (\<forall>t\<in>set (ts @ [t11]). time_Sub t t0 < time_Minute) \<longrightarrow>
      fst (CheckLimit_seq r p 10 50 (t0 # ts @ [t11])) =
        replicate 10 None @
        [Some (CompletionError CodeRateLimit ''per-minute rate limit exceeded'' (Some ErrRateLimitExceeded))] \<and>
      requestCounts (snd (CheckLimit_seq r p 10 50 (t0 # ts @ [t11]))) p =
        Some \<lparr>Minute = 10, Hour = 10, LastMinuteReset = t0, LastHourReset = t0\<rparr> \<and>
      (time_Minute \<le> time_Sub t12 t0 \<longrightarrow>
         fst (CheckLimit (snd (CheckLimit_seq r p 10 50 (t0 # ts @ [t11]))) t12 p 10 50) = None)) \<and>
   (fst (CheckLimit r now p mm mh) \<noteq> None \<longrightarrow>
      requestCounts (snd (CheckLimit r now p mm mh)) p = Some (reset_windows now (lookup_count r now p))) \<and>
   (fst (CheckLimit r now p mm mh) = None \<longrightarrow>
      requestCounts (snd (CheckLimit r now p mm mh)) p =
        Some ((reset_windows now (lookup_count r now p))
          \<lparr>Minute := Minute (reset_windows now (lookup_count r now p)) + 1,
           Hour := Hour (reset_windows now (lookup_count r now p)) + 1\<rparr>))"
proof -
  have "fst (CheckLimit (snd (CheckLimit_seq r p 10 50 (t0 # ts @ [t11]))) t12 p 10 50) = None"
    if "requestCounts r p = None" "length ts = 9" "\<forall>t\<in>set (ts @ [t11]). time_Sub t t0 < time_Minute"
      "time_Minute \<le> time_Sub t12 t0"
  proof -
    from CheckLimit_eleven(2) [OF that(1-3)]
    have "requestCounts (snd (CheckLimit_seq r p 10 50 (t0 # ts @ [t11]))) p =
        Some \<lparr>Minute = 10, Hour = 10, LastMinuteReset = t0, LastHourReset = t0\<rparr>" by simp
    from CheckLimit_rollover [OF this that(4)] show ?thesis .
  qed
  moreover have "requestCounts (snd (CheckLimit_seq r p 10 50 (t0 # ts @ [t11]))) p =
        Some \<lparr>Minute = 10, Hour = 10, LastMinuteReset = t0, LastHourReset = t0\<rparr>"
    if "requestCounts r p = None" "length ts = 9" "\<forall>t\<in>set (ts @ [t11]). time_Sub t t0 < time_Minute"
    using CheckLimit_eleven(2) [OF that] by simp
  ultimately show ?thesis
    using CheckLimit_eleven(1) [of r p ts t11 t0] CheckLimit_counters [of r now p mm mh] by blast
qed

theorem CheckLimit_ten_per_minute_witness:
  "fst (CheckLimit_seq NewRateLimiter ''acme'' 10 50
      ([0, 1000000000, 2000000000, 3000000000, 4000000000, 5000000000, 6000000000, 7000000000,
        8000000000, 9000000000] @ [10000000000])) =
     replicate 10 None @
     [Some (CompletionError CodeRateLimit ''per-minute rate limit exceeded'' (Some ErrRateLimitExceeded))] \<and>
   fst (CheckLimit (snd (CheckLimit_seq NewRateLimiter ''acme'' 10 50
      ([0, 1000000000, 2000000000, 3000000000, 4000000000, 5000000000, 6000000000, 7000000000,
        8000000000, 9000000000] @ [10000000000]))) 60000000000 ''acme'' 10 50) = None"
  using CheckLimit_ten_per_minute [of NewRateLimiter "''acme''"
      "[1000000000, 2000000000, 3000000000, 4000000000, 5000000000, 6000000000, 7000000000,
        8000000000, 9000000000]" 10000000000 0 60000000000, THEN conjunct1]
  by (simp add: NewRateLimiter_def time_Sub_def maxDuration_def minDuration_def time_Minute_def
      time_Second_def)

section \<open>Properties of the configuration\<close>

lemma temperature_check:
  "t \<noteq> NaN \<Longrightarrow> (float_lt t (Finite 0) \<or> float_gt t (Finite 2)) = (\<not> in_0_2 t)"
  by (cases t) (auto simp: float_gt_def)

text \<open>
  C7, as the code has it. For a temperature that is a number, \<open>Validate\<close> returns an
  error exactly when the default model is empty, or the maximum of tokens, the budget of
  context tokens, the per-minute threshold or the per-hour threshold is not positive, or
  the temperature lies outside \<open>[0, 2]\<close>. The request timeout, the cache TTL and the
  maximum cache size are not validated: no value of theirs changes the result.
\<close>

theorem Validate_iff:
  "Temperature c \<noteq> NaN \<Longrightarrow>
   (Validate c \<noteq> None \<longleftrightarrow>
      DefaultLLM c = [] \<or> MaxTokens c \<le> 0 \<or> \<not> in_0_2 (Temperature c) \<or> MaxContextTokens c \<le> 0 \<or>
      MaxRequestsPerMinute c \<le> 0 \<or> MaxRequestsPerHour c \<le> 0) \<and>
   Validate (c\<lparr>RequestTimeout := rt, CacheTTL := ct, MaxCacheSize := ms\<rparr>) = Validate c"
  using temperature_check [of "Temperature c"] by (simp add: Validate_def)

theorem Validate_iff_witness:
  "Temperature DefaultConfig \<noteq> NaN \<and> Validate DefaultConfig = None \<and>
   Validate (DefaultConfig\<lparr>RequestTimeout := - 1, CacheTTL := 0, MaxCacheSize := 0\<rparr>) = Validate DefaultConfig"
  using Validate_iff [where c = DefaultConfig and rt = "- 1" and ct = 0 and ms = 0] by (simp add: DefaultConfig_def)

text \<open>The default configuration with a cache TTL of zero: not positive, and accepted.\<close>

theorem Validate_CacheTTL_counterexample:
  "\<not> 0 < CacheTTL (DefaultConfig\<lparr>CacheTTL := 0\<rparr>) \<and> Validate (DefaultConfig\<lparr>CacheTTL := 0\<rparr>) = None"
  by (simp add: Validate_def DefaultConfig_def float_gt_def)

section \<open>Properties of context gathering\<close>

lemma Split_nonempty: "strings_Split_nl s \<noteq> []"
  by (induction s) (auto split: list.splits)

lemma clamp_line_range: "0 < n \<Longrightarrow> 0 \<le> clamp_line n line \<and> clamp_line n line < n"
  by (simp add: clamp_line_def)

text \<open>
  C9. When the clamped column is at or beyond the end of the clamped cursor line, the
  split leaves the cursor line out: the text before is the lines above it joined with
  newlines, the text after is the lines below it joined with newlines.
\<close>

theorem extractPrefixSuffix_end_of_line:
  assumes "int (length (strings_Split_nl content ! nat (clamp_line (int (length (strings_Split_nl content))) line)))
           \<le> clamp_col col"
  shows "extractPrefixSuffix content line col =
     (strings_Join (take (nat (clamp_line (int (length (strings_Split_nl content))) line))
                     (strings_Split_nl content)) nl,
      strings_Join (drop (nat (clamp_line (int (length (strings_Split_nl content))) line) + 1)
                     (strings_Split_nl content)) nl)"
proof -
  define lines where "lines = strings_Split_nl content"
  define n where "n = int (length lines)"
  define l where "l = nat (clamp_line n line)"
  have "0 < n" using Split_nonempty [of content] by (simp add: n_def lines_def)
  from clamp_line_range [OF this, of line] have r: "0 \<le> clamp_line n line" "clamp_line n line < n" by auto
  have "drop (l + 1) lines = []" if "\<not> clamp_line n line + 1 < n"
    using that r by (simp add: l_def n_def)
  with assms show ?thesis
    unfolding extractPrefixSuffix_def lines_def [symmetric] n_def [symmetric] Let_def l_def [symmetric]
    by (simp add: l_def)
qed


theorem extractPrefixSuffix_end_of_line_witness:
  "int (length (strings_Split_nl (''ab'' @ nl @ ''cd'' @ nl @ ''ef'') !
      nat (clamp_line (int (length (strings_Split_nl (''ab'' @ nl @ ''cd'' @ nl @ ''ef'')))) 1))) \<le> clamp_col 2 \<and>
   extractPrefixSuffix (''ab'' @ nl @ ''cd'' @ nl @ ''ef'') 1 2 = (''ab'', ''ef'')"
  using extractPrefixSuffix_end_of_line [of "''ab'' @ nl @ ''cd'' @ nl @ ''ef''" 1 2]
  by (simp add: nl_def clamp_line_def clamp_col_def)


lemma trimToTokenBudget_frame:
  "Prefix (trimToTokenBudget g ctx) = Prefix ctx \<and> Suffix (trimToTokenBudget g ctx) = Suffix ctx \<and>
   AdditionalFiles (trimToTokenBudget g ctx) = AdditionalFiles ctx \<and>
   Language (trimToTokenBudget g ctx) = Language ctx"
  by (simp add: trimToTokenBudget_def Let_def)

lemma trimToTokenBudget_over:
  assumes "maxTokens g <
     files_tokens (estimateTokens (Prefix ctx) + estimateTokens (Suffix ctx) +
       estimateTokens (AgentsInstructions ctx) + estimateTokens (DiscussionContext ctx)) (AdditionalFiles ctx)"
  shows "DiscussionContext (trimToTokenBudget g ctx) =
           (if 1000 < estimateTokens (DiscussionContext ctx)
            then drop (length (DiscussionContext ctx) - 1000) (DiscussionContext ctx)
            else DiscussionContext ctx)"
    and "AgentsInstructions (trimToTokenBudget g ctx) =
           (if 2000 < estimateTokens (AgentsInstructions ctx)
            then take 2000 (AgentsInstructions ctx)
            else AgentsInstructions ctx)"
  using assms by (simp_all add: trimToTokenBudget_def Let_def)

text \<open>
  C2. Over the budget, the discussion is cut when it estimates to more than 1000 tokens
  and the instructions when they estimate to more than 2000 tokens, and nothing else is
  touched; but what is kept is the last 1000 bytes and the first 2000 bytes, not the
  4000 and 8000 bytes that 1000 and 2000 tokens stand for.
\<close>

theorem trimToTokenBudget_keeps_1000_and_2000_bytes:
  "trimToTokenBudget \<lparr>maxTokens = 1000\<rparr> ctx_big =
     ctx_big\<lparr>DiscussionContext := replicate 1000 CHR ''d'', AgentsInstructions := replicate 2000 CHR ''a''\<rparr> \<and>
   length (DiscussionContext ctx_big) = 5000 \<and> length (AgentsInstructions ctx_big) = 10000 \<and>
   length (DiscussionContext (trimToTokenBudget \<lparr>maxTokens = 1000\<rparr> ctx_big)) = 1000 \<and>
   length (AgentsInstructions (trimToTokenBudget \<lparr>maxTokens = 1000\<rparr> ctx_big)) = 2000"
  by (simp add: trimToTokenBudget_def ctx_big_def estimateTokens_def Let_def)


section \<open>Properties of the prompt\<close>

lemma write_files_append: "write_files prompt files =
    prompt @ concat (map (\<lambda>file. nl @ ''--- '' @ Path file @ '' ---'' @ nl @ Content file @ nl) files)"
  by (induction files arbitrary: prompt) (simp_all add: WriteString_def)


text \<open>
  C8. Rendering leaves the formatter and the context as they were, rendering again gives
  the same bytes, and the text depends on the context alone: it is the fixed sequence of
  sections below, whatever the formatter holds.
\<close>

theorem FormatPrompt_deterministic:
  "snd (FormatPrompt_call (f, ctx)) = (f, ctx) \<and>
   fst (FormatPrompt_call (snd (FormatPrompt_call (f, ctx)))) = fst (FormatPrompt_call (f, ctx)) \<and>
   FormatPrompt f ctx = FormatPrompt f' ctx \<and>
   FormatPrompt f ctx =
     ''You are an expert '' @ Language ctx @ '' programmer. Complete the code at the cursor position.'' @ nl @ nl @
     (if AgentsInstructions ctx = [] then []
      else ''PROJECT INSTRUCTIONS:'' @ nl @ AgentsInstructions ctx @ nl @ nl) @
     (if DiscussionContext ctx = [] then []
      else ''RECENT PROJECT DISCUSSION:'' @ nl @ DiscussionContext ctx @ nl @ nl) @
     (if AdditionalFiles ctx = [] then []
      else ''RELATED FILES:'' @ nl @
           concat (map (\<lambda>file. nl @ ''--- '' @ Path file @ '' ---'' @ nl @ Content file @ nl)
                    (AdditionalFiles ctx)) @ nl) @
     ''CODE BEFORE CURSOR:'' @ nl @ Prefix ctx @ nl @ nl @
     ''CODE AFTER CURSOR:'' @ nl @ Suffix ctx @ nl @ nl @
     ''INSTRUCTIONS:'' @ nl @
     ''Complete only the code at the cursor position.'' @ nl @
     ''Provide syntactically correct, idiomatic '' @ Language ctx @ '' code.'' @ nl @
     ''Do not repeat the prefix or suffix.'' @ nl @
     ''Output only the completion, nothing else.'' @ nl"
proof -
  have closed: "FormatPrompt f ctx =
     ''You are an expert '' @ Language ctx @ '' programmer. Complete the code at the cursor position.'' @ nl @ nl @
     (if AgentsInstructions ctx = [] then []
      else ''PROJECT INSTRUCTIONS:'' @ nl @ AgentsInstructions ctx @ nl @ nl) @
     (if DiscussionContext ctx = [] then []
      else ''RECENT PROJECT DISCUSSION:'' @ nl @ DiscussionContext ctx @ nl @ nl) @
     (if AdditionalFiles ctx = [] then []
      else ''RELATED FILES:'' @ nl @
           concat (map (\<lambda>file. nl @ ''--- '' @ Path file @ '' ---'' @ nl @ Content file @ nl)
                    (AdditionalFiles ctx)) @ nl) @
     ''CODE BEFORE CURSOR:'' @ nl @ Prefix ctx @ nl @ nl @
     ''CODE AFTER CURSOR:'' @ nl @ Suffix ctx @ nl @ nl @
     ''INSTRUCTIONS:'' @ nl @
     ''Complete only the code at the cursor position.'' @ nl @
     ''Provide syntactically correct, idiomatic '' @ Language ctx @ '' code.'' @ nl @
     ''Do not repeat the prefix or suffix.'' @ nl @
     ''Output only the completion, nothing else.'' @ nl" for f
    unfolding FormatPrompt_def WriteString_def write_files_append Let_def
    by (cases "AgentsInstructions ctx = []"; cases "DiscussionContext ctx = []"; cases "AdditionalFiles ctx = []")
      (simp_all only: append_assoc append_Nil append_Nil2 length_greater_0_conv if_True if_False simp_thms)
  have "FormatPrompt f ctx = FormatPrompt f' ctx"
    by (simp only: closed)
  with closed [of f] show ?thesis
    by (simp only: FormatPrompt_call_def fst_conv snd_conv simp_thms)
qed

section \<open>Properties of the orchestrator\<close>

lemma NewCompletionService_default:
  "NewCompletionService None = Inr (svc0\<lparr>grokker := None\<rparr>)"
  by (simp add: NewCompletionService_def svc0_def Validate_def DefaultConfig_def float_gt_def)

lemma validate0: "validateRequest lib0 req0 pg0 = None"
  by (simp add: validateRequest_def lib0_def req0_def pg0_def resolveFilePath_def)

lemma cacheKey0: "cacheKey req0 = ''acme:a.go:0:0:''"
  by (simp add: cacheKey_def req0_def fmt_d_def nat_digits.simps digit_char_def)

lemma walk0: "agents_walk lib0 pg0 ''/p'' ''/p'' [] = Some []"
  by (subst agents_walk.simps) (simp add: lib0_def pg0_def)

lemma gather0:
  "GatherContext \<lparr>maxTokens = 10000\<rparr> lib0 req0 ''package main'' pg0 =
     Some (Inr \<lparr>Prefix = [], Suffix = [], AgentsInstructions = [], DiscussionContext = [],
                AdditionalFiles = [], Language = ''Go''\<rparr>)"
proof -
  have d: "filepath_Dir lib0 (filepath_Join lib0 ''/p'' ''a.go'') = ''/p''"
    by (simp add: lib0_def dir0_def)
  have a: "gatherAgentsInstructions \<lparr>maxTokens = 10000\<rparr> lib0 ''/p'' ''a.go'' pg0 = Some []"
    by (simp add: gatherAgentsInstructions_def d walk0)
  have e: "extractPrefixSuffix ''package main'' 0 0 = ([], [])"
    by (simp add: extractPrefixSuffix_def clamp_line_def clamp_col_def Let_def)
  have l: "detectLanguage lib0 ''a.go'' = ''Go''"
    by (simp add: detectLanguage_def lib0_def ext0_def langMap_def)
  have "GetProjectBaseDir pg0 ''acme'' = (''/p'', None)" by (simp add: pg0_def)
  then show ?thesis
    using a e l
    by (simp add: GatherContext_def req0_def gatherDiscussionContext_def gatherAdditionalFiles_def
        pg0_def trimToTokenBudget_def estimateTokens_def)
qed


lemma Complete_limited:
  assumes "validateRequest lib req pg = None"
    and "CheckLimit (rateLimiter (service w)) (now_limit clk) (ProjectID req)
           (MaxRequestsPerMinute (config (service w))) (MaxRequestsPerHour (config (service w))) =
         (Some err, rl)"
  shows "Complete lib w clk visit req pg =
     Some (Inl err, w\<lparr>service := (service w)\<lparr>rateLimiter := rl\<rparr>\<rparr>)"
  using assms by (simp add: Complete_def)

lemma Complete_hit:
  assumes "validateRequest lib req pg = None"
    and "CheckLimit (rateLimiter (service w)) (now_limit clk) (ProjectID req)
           (MaxRequestsPerMinute (config (service w))) (MaxRequestsPerHour (config (service w))) =
         (None, rl)"
    and "ReadFile pg (resolveFilePath lib (fst (GetProjectBaseDir pg (ProjectID req))) (FilePath req)) =
         (fileContent, None)"
    and "EnableCache (config (service w))"
    and "Cache_Get (sha256_hex lib) (cache (service w)) (now_get clk) req fileContent = Some cached"
  shows "Complete lib w clk visit req pg =
     Some (Inr cached,
           w\<lparr>service := (service w)\<lparr>rateLimiter := rl\<rparr>,
             heap := (heap w)[cached := (heap w ! cached)\<lparr>CachedResult := True\<rparr>]\<rparr>)"
  using assms by (simp add: Complete_def)

lemma Complete_miss:
  assumes "validateRequest lib req pg = None"
    and "CheckLimit (rateLimiter (service w)) (now_limit clk) (ProjectID req)
           (MaxRequestsPerMinute (config (service w))) (MaxRequestsPerHour (config (service w))) =
         (None, rl)"
    and "ReadFile pg (resolveFilePath lib (fst (GetProjectBaseDir pg (ProjectID req))) (FilePath req)) =
         (fileContent, None)"
    and "EnableCache (config (service w))"
    and "Cache_Get (sha256_hex lib) (cache (service w)) (now_get clk) req fileContent = None"
    and "GatherContext \<lparr>maxTokens = MaxContextTokens (config (service w))\<rparr> lib req fileContent pg =
         Some (Inr completionCtx)"
    and "grokker (service w) = Some query"
    and "query (if LLM req = [] then DefaultLLM (config (service w)) else LLM req) systemMsg
           (FormatPrompt \<lparr>instructionTemplate = []\<rparr> completionCtx)
           (if ReqMaxTokens req = 0 then MaxTokens (config (service w)) else ReqMaxTokens req) =
         (completion, tokensUsed, None)"
  shows "Complete lib w clk visit req pg =
     Some (Inr (length (heap w)),
           w\<lparr>service := (service w)
               \<lparr>rateLimiter := rl,
                cache := Cache_Put (sha256_hex lib) (cache (service w)) visit (now_put clk) req fileContent
                           (length (heap w))\<rparr>,
             heap := heap w @
               [\<lparr>Completion = completion,
                 LatencyMs = Milliseconds (time_Since (now_since clk) (now_start clk)),
                 Model = (if LLM req = [] then DefaultLLM (config (service w)) else LLM req),
                 TokensUsed = tokensUsed,
                 CachedResult = False,
                 Timestamp = now_stamp clk\<rparr>]\<rparr>)"
  using assms by (simp add: Complete_def Let_def)


lemma read0:
  "ReadFile pg0 (resolveFilePath lib0 (fst (GetProjectBaseDir pg0 (ProjectID req0))) (FilePath req0)) =
     (''package main'', None)"
  by (simp add: pg0_def lib0_def req0_def resolveFilePath_def)

lemma limit_fresh0:
  "CheckLimit NewRateLimiter 0 ''acme'' 10 50 = (None, \<lparr>requestCounts = [''acme'' \<mapsto> count_n 1]\<rparr>)"
  using CheckLimit_fresh [of NewRateLimiter "''acme''" 10 50 0]
  by (simp add: NewRateLimiter_def count_n_def)

lemma limit_next0:
  assumes "k < 10" and "t < time_Minute" and "0 \<le> t"
  shows "CheckLimit \<lparr>requestCounts = [''acme'' \<mapsto> count_n k]\<rparr> t ''acme'' 10 50 =
     (None, \<lparr>requestCounts = [''acme'' \<mapsto> count_n (k + 1)]\<rparr>)"
proof -
  have s: "time_Sub t 0 = t"
    using assms by (simp add: time_Sub_def maxDuration_def minDuration_def time_Minute_def time_Second_def)
  have "requestCounts \<lparr>requestCounts = [''acme'' \<mapsto> count_n k]\<rparr> ''acme'' = Some (count_n k)" by simp
  from CheckLimit_accept [OF this, of t 10 50] assms s minute_lt_hour [of t]
  show ?thesis by (simp add: count_n_def)
qed

lemma limit_full0:
  assumes "t < time_Minute" and "0 \<le> t"
  shows "CheckLimit \<lparr>requestCounts = [''acme'' \<mapsto> count_n 10]\<rparr> t ''acme'' 10 50 =
     (Some (CompletionError ''RATE_LIMIT'' ''per-minute rate limit exceeded'' (Some ErrRateLimitExceeded)),
      \<lparr>requestCounts = [''acme'' \<mapsto> count_n 10]\<rparr>)"
proof -
  have s: "time_Sub t 0 = t"
    using assms by (simp add: time_Sub_def maxDuration_def minDuration_def time_Minute_def time_Second_def)
  have "requestCounts \<lparr>requestCounts = [''acme'' \<mapsto> count_n 10]\<rparr> ''acme'' = Some (count_n 10)" by simp
  from CheckLimit_reject_minute [OF this, of t 10 50] assms s minute_lt_hour [of t]
  show ?thesis by (simp add: count_n_def)
qed

lemma get_after0:
  assumes "2 * time_Second \<le> t" and "t \<le> 5 * time_Minute"
  shows "Cache_Get (sha256_hex lib0) (cache (service (w_after k flag))) t req0 ''package main'' = Some 0"
proof -
  have "time_Since t (2 * time_Second) \<le> 5 * time_Minute"
    using assms
    by (simp add: time_Since_def time_Sub_def maxDuration_def minDuration_def time_Minute_def time_Second_def)
  then show ?thesis
    by (simp add: Cache_Get_def w_after_def svc0_def NewCache_def DefaultConfig_def cacheKey0 lib0_def)
qed

lemma Complete_miss0:
  "Complete lib0 w0 (clk_at 0) [] req0 pg0 = Some (Inr 0, w_after 1 False)"
proof -
  have g: "GatherContext \<lparr>maxTokens = MaxContextTokens (config (service w0))\<rparr> lib0 req0 ''package main'' pg0 =
      Some (Inr \<lparr>Prefix = [], Suffix = [], AgentsInstructions = [], DiscussionContext = [],
                AdditionalFiles = [], Language = ''Go''\<rparr>)"
    using gather0 by (simp add: w0_def svc0_def DefaultConfig_def)
  have l: "CheckLimit (rateLimiter (service w0)) (now_limit (clk_at 0)) (ProjectID req0)
           (MaxRequestsPerMinute (config (service w0))) (MaxRequestsPerHour (config (service w0))) =
         (None, \<lparr>requestCounts = [''acme'' \<mapsto> count_n 1]\<rparr>)"
    using limit_fresh0 by (simp add: w0_def svc0_def DefaultConfig_def clk_at_def req0_def)
  have c: "Cache_Get (sha256_hex lib0) (cache (service w0)) (now_get (clk_at 0)) req0 ''package main'' = None"
    by (simp add: Cache_Get_def w0_def svc0_def NewCache_def)
  have e: "EnableCache (config (service w0))" by (simp add: w0_def svc0_def DefaultConfig_def)
  have q: "grokker (service w0) = Some grok0" by (simp add: w0_def svc0_def)
  have r: "grok0 (if LLM req0 = [] then DefaultLLM (config (service w0)) else LLM req0) systemMsg
           (FormatPrompt \<lparr>instructionTemplate = []\<rparr> \<lparr>Prefix = [], Suffix = [], AgentsInstructions = [],
              DiscussionContext = [], AdditionalFiles = [], Language = ''Go''\<rparr>)
           (if ReqMaxTokens req0 = 0 then MaxTokens (config (service w0)) else ReqMaxTokens req0) =
         (''x := 1'', 7, None)"
    by (simp only: grok0_def)
  have m: "Milliseconds (time_Since (now_since (clk_at 0)) (now_start (clk_at 0))) = 2000"
    by (simp add: Milliseconds_def go_div_def time_Since_def time_Sub_def clk_at_def time_Second_def
        maxDuration_def minDuration_def)
  have p: "Cache_Put (sha256_hex lib0) (cache (service w0)) [] (now_put (clk_at 0)) req0 ''package main''
        (length (heap w0)) =
      (cache svc0)\<lparr>entries :=
           [(''acme:a.go:0:0:'', \<lparr>Response = 0, CreatedAt = 2 * time_Second, FileHash = ''package main''\<rparr>)]\<rparr>"
    by (simp add: Cache_Put_def w0_def svc0_def NewCache_def DefaultConfig_def evict_def cacheKey0
        lib0_def clk_at_def)
  from Complete_miss [OF validate0 l read0 e c g q r, of "[]"]
  show ?thesis
    unfolding p m
    by (simp add: w_after_def w0_def svc0_def resp0_def req0_def DefaultConfig_def clk_at_def)
qed

lemma Complete_hit0:
  assumes "k < 10" and "2 * time_Second \<le> t" and "t < time_Minute"
  shows "Complete lib0 (w_after k flag) (clk_at t) visit req0 pg0 = Some (Inr 0, w_after (k + 1) True)"
proof -
  from assms have t0: "0 \<le> t" by (simp add: time_Second_def)
  from assms have t5: "t \<le> 5 * time_Minute" by (simp add: time_Minute_def time_Second_def)
  have l: "CheckLimit (rateLimiter (service (w_after k flag))) (now_limit (clk_at t)) (ProjectID req0)
           (MaxRequestsPerMinute (config (service (w_after k flag))))
           (MaxRequestsPerHour (config (service (w_after k flag)))) =
         (None, \<lparr>requestCounts = [''acme'' \<mapsto> count_n (k + 1)]\<rparr>)"
    using limit_next0 [OF assms(1,3) t0]
    by (simp add: w_after_def svc0_def DefaultConfig_def clk_at_def req0_def)
  have e: "EnableCache (config (service (w_after k flag)))"
    by (simp add: w_after_def svc0_def DefaultConfig_def)
  have c: "Cache_Get (sha256_hex lib0) (cache (service (w_after k flag))) (now_get (clk_at t)) req0
      ''package main'' = Some 0"
    using get_after0 [OF assms(2) t5] by (simp add: clk_at_def)
  from Complete_hit [OF validate0 l read0 e c, of visit]
  show ?thesis by (simp add: w_after_def resp0_def)
qed

lemma Complete_limited0:
  assumes "0 \<le> t" and "t < time_Minute"
  shows "Complete lib0 (w_after 10 flag) (clk_at t) visit req0 pg0 =
     Some (Inl (CompletionError ''RATE_LIMIT'' ''per-minute rate limit exceeded'' (Some ErrRateLimitExceeded)),
           w_after 10 flag)"
proof -
  have l: "CheckLimit (rateLimiter (service (w_after 10 flag))) (now_limit (clk_at t)) (ProjectID req0)
           (MaxRequestsPerMinute (config (service (w_after 10 flag))))
           (MaxRequestsPerHour (config (service (w_after 10 flag)))) =
         (Some (CompletionError ''RATE_LIMIT'' ''per-minute rate limit exceeded'' (Some ErrRateLimitExceeded)),
          \<lparr>requestCounts = [''acme'' \<mapsto> count_n 10]\<rparr>)"
    using limit_full0 [OF assms(2,1)]
    by (simp add: w_after_def svc0_def DefaultConfig_def clk_at_def req0_def)
  from Complete_limited [OF validate0 l, of visit]
  show ?thesis by (simp add: w_after_def)
qed


text \<open>
  C1, as the code has it. After validation the orchestrator calls the rate limiter, then
  reads the file, and only then consults the cache. A request the limiter rejects fails
  with the limiter's error whatever the cache holds; a request that hits the cache
  returns the cached response at once (no context is gathered, no downstream call is
  made, nothing is put) after the limiter has accepted it, so both window counters of
  the project have been incremented.
\<close>

theorem Complete_limiter_before_cache:
  assumes "validateRequest lib req pg = None"
    and "CheckLimit (rateLimiter (service w)) (now_limit clk) (ProjectID req)
           (MaxRequestsPerMinute (config (service w))) (MaxRequestsPerHour (config (service w))) =
         (limited, rl)"
  shows "(limited = Some err \<longrightarrow>
            Complete lib w clk visit req pg =
              Some (Inl err, w\<lparr>service := (service w)\<lparr>rateLimiter := rl\<rparr>\<rparr>)) \<and>
         (limited = None \<and>
          ReadFile pg (resolveFilePath lib (fst (GetProjectBaseDir pg (ProjectID req))) (FilePath req)) =
            (fileContent, None) \<and>
          EnableCache (config (service w)) \<and>
          Cache_Get (sha256_hex lib) (cache (service w)) (now_get clk) req fileContent = Some cached \<longrightarrow>
            Complete lib w clk visit req pg =
              Some (Inr cached,
                    w\<lparr>service := (service w)\<lparr>rateLimiter := rl\<rparr>,
                      heap := (heap w)[cached := (heap w ! cached)\<lparr>CachedResult := True\<rparr>]\<rparr>) \<and>
            requestCounts rl (ProjectID req) =
              Some ((reset_windows (now_limit clk)
                       (lookup_count (rateLimiter (service w)) (now_limit clk) (ProjectID req)))
                \<lparr>Minute := Minute (reset_windows (now_limit clk)
                       (lookup_count (rateLimiter (service w)) (now_limit clk) (ProjectID req))) + 1,
                 Hour := Hour (reset_windows (now_limit clk)
                       (lookup_count (rateLimiter (service w)) (now_limit clk) (ProjectID req))) + 1\<rparr>))"
proof -
  have a: "Complete lib w clk visit req pg =
      Some (Inl err, w\<lparr>service := (service w)\<lparr>rateLimiter := rl\<rparr>\<rparr>)" if "limited = Some err"
  proof -
    from assms(2) that have "CheckLimit (rateLimiter (service w)) (now_limit clk) (ProjectID req)
           (MaxRequestsPerMinute (config (service w))) (MaxRequestsPerHour (config (service w))) =
         (Some err, rl)" by simp
    from Complete_limited [OF assms(1) this] show ?thesis .
  qed
  have b: "Complete lib w clk visit req pg =
      Some (Inr cached,
            w\<lparr>service := (service w)\<lparr>rateLimiter := rl\<rparr>,
              heap := (heap w)[cached := (heap w ! cached)\<lparr>CachedResult := True\<rparr>]\<rparr>)"
    if "limited = None"
      "ReadFile pg (resolveFilePath lib (fst (GetProjectBaseDir pg (ProjectID req))) (FilePath req)) =
        (fileContent, None)"
      "EnableCache (config (service w))"
      "Cache_Get (sha256_hex lib) (cache (service w)) (now_get clk) req fileContent = Some cached"
  proof -
    from assms(2) that(1) have "CheckLimit (rateLimiter (service w)) (now_limit clk) (ProjectID req)
           (MaxRequestsPerMinute (config (service w))) (MaxRequestsPerHour (config (service w))) =
         (None, rl)" by simp
    from Complete_hit [OF assms(1) this that(2,3,4)] show ?thesis .
  qed
  have c: "requestCounts rl (ProjectID req) =
      Some ((reset_windows (now_limit clk)
               (lookup_count (rateLimiter (service w)) (now_limit clk) (ProjectID req)))
        \<lparr>Minute := Minute (reset_windows (now_limit clk)
               (lookup_count (rateLimiter (service w)) (now_limit clk) (ProjectID req))) + 1,
         Hour := Hour (reset_windows (now_limit clk)
               (lookup_count (rateLimiter (service w)) (now_limit clk) (ProjectID req))) + 1\<rparr>)"
    if "limited = None"
    using CheckLimit_counters [of "rateLimiter (service w)" "now_limit clk" "ProjectID req"
        "MaxRequestsPerMinute (config (service w))" "MaxRequestsPerHour (config (service w))"]
      assms(2) that by simp
  from a b c show ?thesis by blast
qed

theorem Complete_limiter_before_cache_witness:
  "validateRequest lib0 req0 pg0 = None \<and>
   Cache_Get (sha256_hex lib0) (cache (service (w_after 10 False))) (now_get (clk_at (10 * time_Second)))
     req0 ''package main'' = Some 0 \<and>
   Complete lib0 (w_after 10 False) (clk_at (10 * time_Second)) [] req0 pg0 =
     Some (Inl (CompletionError ''RATE_LIMIT'' ''per-minute rate limit exceeded'' (Some ErrRateLimitExceeded)),
           w_after 10 False) \<and>
   Complete lib0 (w_after 1 False) (clk_at (10 * time_Second)) [] req0 pg0 = Some (Inr 0, w_after 2 True) \<and>
   requestCounts (rateLimiter (service (w_after 2 True))) ''acme'' =
     Some \<lparr>Minute = 2, Hour = 2, LastMinuteReset = 0, LastHourReset = 0\<rparr>"
proof -
  have t: "(0::int) \<le> 10 * time_Second" "10 * time_Second < time_Minute" "2 * time_Second \<le> 10 * time_Second"
    "10 * time_Second \<le> 5 * time_Minute"
    by (simp_all add: time_Second_def time_Minute_def)
  have l10: "CheckLimit (rateLimiter (service (w_after 10 False))) (now_limit (clk_at (10 * time_Second)))
      (ProjectID req0) (MaxRequestsPerMinute (config (service (w_after 10 False))))
      (MaxRequestsPerHour (config (service (w_after 10 False)))) =
     (Some (CompletionError ''RATE_LIMIT'' ''per-minute rate limit exceeded'' (Some ErrRateLimitExceeded)),
      \<lparr>requestCounts = [''acme'' \<mapsto> count_n 10]\<rparr>)"
    using limit_full0 [OF t(2,1)]
    by (simp add: w_after_def svc0_def DefaultConfig_def clk_at_def req0_def)
  have l1: "CheckLimit (rateLimiter (service (w_after 1 False))) (now_limit (clk_at (10 * time_Second)))
      (ProjectID req0) (MaxRequestsPerMinute (config (service (w_after 1 False))))
      (MaxRequestsPerHour (config (service (w_after 1 False)))) =
     (None, \<lparr>requestCounts = [''acme'' \<mapsto> count_n (1 + 1)]\<rparr>)"
    using limit_next0 [of 1, OF _ t(2,1)]
    by (simp add: w_after_def svc0_def DefaultConfig_def clk_at_def req0_def)
  have g: "Cache_Get (sha256_hex lib0) (cache (service (w_after k flag))) (now_get (clk_at (10 * time_Second)))
     req0 ''package main'' = Some 0" for k flag
    using get_after0 [OF t(3,4)] by (simp add: clk_at_def)
  have e: "EnableCache (config (service (w_after 1 False)))"
    by (simp add: w_after_def svc0_def DefaultConfig_def)
  from Complete_limiter_before_cache [OF validate0 l10, where visit = "[]", THEN conjunct1]
  have a: "Complete lib0 (w_after 10 False) (clk_at (10 * time_Second)) [] req0 pg0 =
     Some (Inl (CompletionError ''RATE_LIMIT'' ''per-minute rate limit exceeded'' (Some ErrRateLimitExceeded)),
           w_after 10 False)"
    by (simp add: w_after_def)
  from Complete_limiter_before_cache [OF validate0 l1, where visit = "[]" and fileContent = "''package main''"
      and cached = 0, THEN conjunct2]
    read0 e g [of 1 False]
  have b: "Complete lib0 (w_after 1 False) (clk_at (10 * time_Second)) [] req0 pg0 = Some (Inr 0, w_after 2 True)"
    by (simp add: w_after_def resp0_def)
  have c: "requestCounts (rateLimiter (service (w_after 2 True))) ''acme'' =
     Some \<lparr>Minute = 2, Hour = 2, LastMinuteReset = 0, LastHourReset = 0\<rparr>"
    by (simp add: w_after_def count_n_def)
  from validate0 g [of 10 False] a b c show ?thesis by simp
qed

text \<open>
  A request whose response is cached and fresh. With one call counted in the window it is
  served from the cache and the counters go from 1 to 2; with ten calls counted it is
  rejected by the limiter although the cache holds its response.
\<close>

theorem Complete_cache_hit_counted_counterexample:
  "Cache_Get (sha256_hex lib0) (cache (service (w_after 1 False))) (now_get (clk_at (10 * time_Second)))
     req0 ''package main'' = Some 0 \<and>
   Complete lib0 (w_after 1 False) (clk_at (10 * time_Second)) [] req0 pg0 = Some (Inr 0, w_after 2 True) \<and>
   requestCounts (rateLimiter (service (w_after 1 False))) ''acme'' =
     Some \<lparr>Minute = 1, Hour = 1, LastMinuteReset = 0, LastHourReset = 0\<rparr> \<and>
   requestCounts (rateLimiter (service (w_after 2 True))) ''acme'' =
     Some \<lparr>Minute = 2, Hour = 2, LastMinuteReset = 0, LastHourReset = 0\<rparr> \<and>
   Cache_Get (sha256_hex lib0) (cache (service (w_after 10 False))) (now_get (clk_at (10 * time_Second)))
     req0 ''package main'' = Some 0 \<and>
   Complete lib0 (w_after 10 False) (clk_at (10 * time_Second)) [] req0 pg0 =
     Some (Inl (CompletionError ''RATE_LIMIT'' ''per-minute rate limit exceeded'' (Some ErrRateLimitExceeded)),
           w_after 10 False)"
proof -
  have t: "(0::int) \<le> 10 * time_Second" "10 * time_Second < time_Minute" "2 * time_Second \<le> 10 * time_Second"
    "10 * time_Second \<le> 5 * time_Minute"
    by (simp_all add: time_Second_def time_Minute_def)
  have g: "Cache_Get (sha256_hex lib0) (cache (service (w_after k flag))) (now_get (clk_at (10 * time_Second)))
     req0 ''package main'' = Some 0" for k flag
    using get_after0 [OF t(3,4)] by (simp add: clk_at_def)
  have h: "Complete lib0 (w_after 1 False) (clk_at (10 * time_Second)) [] req0 pg0 = Some (Inr 0, w_after 2 True)"
    using Complete_hit0 [of 1, OF _ t(3,2)] by simp
  have c: "requestCounts (rateLimiter (service (w_after k flag))) ''acme'' =
     Some \<lparr>Minute = k, Hour = k, LastMinuteReset = 0, LastHourReset = 0\<rparr>" for k flag
    by (simp add: w_after_def count_n_def)
  from g [of 1 False] g [of 10 False] h c [of 1 False] c [of 2 True] Complete_limited0 [OF t(1,2)]
  show ?thesis by simp
qed

text \<open>
  C6. The first call misses: its response is allocated at address 0 with the flag false,
  the cache stores that address and the caller receives it. The second call hits:
  \<open>Cache_Get\<close> hands out the stored address and the orchestrator sets the flag through it.
  The object the cache holds, which is also the one the first caller holds, now has the
  flag true, and so has the result of any later \<open>Cache_Get\<close>.
\<close>

theorem Complete_hit_sets_stored_flag:
  "Complete lib0 w0 (clk_at 0) [] req0 pg0 = Some (Inr 0, w_after 1 False) \<and>
   map_of (entries (cache (service (w_after 1 False)))) (cacheKey req0) =
     Some \<lparr>Response = 0, CreatedAt = 2 * time_Second, FileHash = ''package main''\<rparr> \<and>
   CachedResult (heap (w_after 1 False) ! 0) = False \<and>
   Complete lib0 (w_after 1 False) (clk_at (10 * time_Second)) [] req0 pg0 = Some (Inr 0, w_after 2 True) \<and>
   Cache_Get (sha256_hex lib0) (cache (service (w_after 2 True))) (20 * time_Second) req0 ''package main'' =
     Some 0 \<and>
   CachedResult (heap (w_after 2 True) ! 0) = True"
proof -
  have t: "10 * time_Second < time_Minute" "2 * time_Second \<le> 10 * time_Second"
    "2 * time_Second \<le> 20 * time_Second" "20 * time_Second \<le> 5 * time_Minute"
    by (simp_all add: time_Second_def time_Minute_def)
  have h: "Complete lib0 (w_after 1 False) (clk_at (10 * time_Second)) [] req0 pg0 = Some (Inr 0, w_after 2 True)"
    using Complete_hit0 [of 1, OF _ t(2,1)] by simp
  have m: "map_of (entries (cache (service (w_after 1 False)))) (cacheKey req0) =
     Some \<lparr>Response = 0, CreatedAt = 2 * time_Second, FileHash = ''package main''\<rparr>"
    by (simp add: w_after_def cacheKey0)
  have f: "CachedResult (heap (w_after 1 False) ! 0) = False" "CachedResult (heap (w_after 2 True) ! 0) = True"
    by (simp_all add: w_after_def resp0_def)
  from Complete_miss0 m f h get_after0 [OF t(3,4), of 2 True] show ?thesis by simp
qed

end
